theory Spec2Isabelle
  imports Complex_Main "HOL-Library.Multiset" "HOL-Library.Log_Nat"
begin

section \<open>Data model of Project1/main.go\<close>

text \<open>
  The Go fields and clocks are \<open>int64\<close>. The model computes on unbounded integers: it
  is the program on every run in which no result of an \<open>int64\<close> operation leaves the
  64-bit range. The general statements about the numbers the schedulers compute (C1,
  C6 and C9) carry that condition as a hypothesis (\<open>int64\<close> below, and the \<open>Fits\<close>
  predicates after the schedulers).

  The \<open>float64\<close> accumulators of the schedulers only ever hold sums and differences of
  integers; they are integers in the model, which is what the program holds as long as
  every such value is a \<open>float64\<close> value (\<open>isFloat64\<close> below). The three footer statistics
  are true quotients: \<open>fdiv\<close> below rounds them as \<open>float64\<close> division does.
\<close>

record Process =
  ProcessID :: int
  ArrivalTime :: int
  BurstDuration :: int
  Priority :: int

record TimeSlice =
  PID :: int
  Start :: int
  Stop :: int

text \<open>
  A row of the schedule table is a \<open>[]string\<close> in the source. The model keeps, for
  each cell, the number whose decimal rendering the source stores, in column order
  ID, Priority, Burst, Arrival, Wait, Turnaround, Exit. A \<open>nil\<close> row (an element of
  \<open>make([][]string, n)\<close> that was never assigned) is the empty list.
\<close>

type_synonym Row = "int list"

record Out =
  gantt :: "TimeSlice list"
  schedule :: "Row list"

text \<open>
  The value of a \<open>float64\<close> expression: a number, or one of the three values that a
  division by zero gives.
\<close>

datatype float64 = Finite real | PosInf | NegInf | NaN

text \<open>What a scheduler hands to \<open>outputGantt\<close> and \<open>outputSchedule\<close>.\<close>

record Report = Out +
  aveWait :: float64
  aveTurnaround :: float64
  aveThroughput :: float64

definition int64 :: "int \<Rightarrow> bool" where
  \<comment> \<open>the values of the Go type \<open>int64\<close>\<close>
  "int64 x \<longleftrightarrow> - (2 ^ 63) \<le> x \<and> x < 2 ^ 63"

subsection \<open>float64\<close>

text \<open>
  A finite \<open>float64\<close> is an integer of at most 53 bits times a power of two, and every
  operation returns the representable number nearest to the exact result, the one with
  the even 53-bit integer when two are equally near. The numbers the schedulers convert
  and divide are \<open>int64\<close> values and sums of a few of them, far inside the exponent
  range, so neither overflow to infinity nor subnormal numbers are modelled.
\<close>

definition roundEven :: "real \<Rightarrow> int" where
  \<comment> \<open>the nearest integer, the even one of two equally near\<close>
  "roundEven x =
     (let f = \<lfloor>x\<rfloor>; d = x - of_int f
      in if d < 1 / 2 then f else if 1 / 2 < d then f + 1 else if even f then f else f + 1)"

definition f64 :: "int \<Rightarrow> int" where
  \<comment> \<open>the conversion \<open>float64(x)\<close> of an integer: \<open>x\<close> rounded to 53 significant bits\<close>
  "f64 x =
     (let k = bitlen (abs x) - 53
      in if k \<le> 0 then x
         else sgn x * roundEven (real_of_int \<bar>x\<bar> / 2 powi k) * 2 ^ nat k)"

definition isFloat64 :: "int \<Rightarrow> bool" where
  \<comment> \<open>the integer is a \<open>float64\<close> value; all integers up to \<open>2^53\<close> in size are\<close>
  "isFloat64 x \<longleftrightarrow> f64 x = x"

definition f64quot :: "int \<Rightarrow> int \<Rightarrow> real" where
  \<comment> \<open>\<open>a / b\<close> for two \<open>float64\<close> values that hold the integers \<open>a\<close> and \<open>b \<noteq> 0\<close>: the
      exponent \<open>e\<close> is the one that puts the quotient in \<open>[2^52, 2^53)\<close>\<close>
  "f64quot a b =
     (if a = 0 then 0
      else
        (let x = \<bar>real_of_int a\<bar> / \<bar>real_of_int b\<bar>;
             e0 = bitlen (abs a) - bitlen (abs b) - 53;
             e = (if 2 ^ 53 \<le> x / 2 powi e0 then e0 + 1 else e0)
         in real_of_int (sgn a * sgn b * roundEven (x / 2 powi e)) * 2 powi e))"

text \<open>
  Division of two numbers as the schedulers do it: both are brought to \<open>float64\<close> and
  divided there. Every divisor of the schedulers is a converted \<open>int64\<close> or a length, so
  a zero divisor is the positive zero, and dividing by it gives \<open>+Inf\<close>, \<open>-Inf\<close> or
  \<open>NaN\<close> after the sign of the dividend.
\<close>

definition fdiv :: "int \<Rightarrow> int \<Rightarrow> float64" where
  "fdiv a b =
     (if b \<noteq> 0 then Finite (f64quot (f64 a) (f64 b))
      else if 0 < a then PosInf else if a < 0 then NegInf else NaN)"

definition min64 :: "int \<Rightarrow> int \<Rightarrow> int" where
  \<comment> \<open>\<open>func min(a, b int64) int64\<close>\<close>
  "min64 a b = (if a < b then a else b)"

definition priorityPenalty :: "Process \<Rightarrow> int" where
  "priorityPenalty p = (Priority p - 1) * 5"

subsection \<open>sort.Slice\<close>

text \<open>
  \<open>sort.Slice\<close> belongs to the Go standard library. In current Go releases, for slices
  of at most twelve elements, it is the insertion sort below (\<open>insertionSortLessFunc\<close>: each element in turn
  is swapped towards the front while it is \<open>less\<close> than its left neighbour); for longer
  slices the library uses a different, unstable algorithm whose result is still a
  permutation of the input ordered by \<open>less\<close>. \<open>insertDown\<close> holds the already sorted
  prefix in reverse, the nearest neighbour first.
\<close>

fun insertDown :: "('a \<Rightarrow> 'a \<Rightarrow> bool) \<Rightarrow> 'a \<Rightarrow> 'a list \<Rightarrow> 'a list" where
  "insertDown lt x [] = [x]"
| "insertDown lt x (y # ys) =
     (if lt x y then y # insertDown lt x ys else x # y # ys)"

definition sortSlice :: "('a \<Rightarrow> 'a \<Rightarrow> bool) \<Rightarrow> 'a list \<Rightarrow> 'a list" where
  "sortSlice lt xs = rev (foldl (\<lambda>acc x. insertDown lt x acc) [] xs)"

definition lessArrival :: "Process \<Rightarrow> Process \<Rightarrow> bool" where
  \<comment> \<open>the comparator of \<open>SJFSchedule\<close> and \<open>RRSchedule\<close>\<close>
  "lessArrival a b = (ArrivalTime a < ArrivalTime b)"

definition lessArrivalPriorityBurst :: "Process \<Rightarrow> Process \<Rightarrow> bool" where
  \<comment> \<open>the comparator of \<open>SJFPrioritySchedule\<close>\<close>
  "lessArrivalPriorityBurst a b =
     (if ArrivalTime a \<noteq> ArrivalTime b then ArrivalTime a < ArrivalTime b
      else if Priority a \<noteq> Priority b then Priority a < Priority b
      else BurstDuration a < BurstDuration b)"

section \<open>FCFSSchedule\<close>

record FCFSState = Out +
  serviceTime :: int
  totalWait :: int
  totalTurnaround :: int
  lastCompletion :: int
  waitingTime :: int

text \<open>
  One pass of \<open>for i := range processes\<close>. \<open>waitingTime\<close> is declared outside the
  loop and assigned only under \<open>ArrivalTime > 0\<close>, so otherwise the value of the
  previous pass is used again.
\<close>

definition FCFSBody :: "Process list \<Rightarrow> FCFSState \<Rightarrow> nat \<Rightarrow> FCFSState" where
  "FCFSBody processes st i =
     (let p = processes ! i;
          waitingTime' = (if ArrivalTime p > 0 then serviceTime st - ArrivalTime p
                          else waitingTime st);
          start = waitingTime' + ArrivalTime p;
          turnaround = BurstDuration p + waitingTime';
          completion = BurstDuration p + ArrivalTime p + waitingTime';
          serviceTime' = serviceTime st + BurstDuration p
      in st\<lparr> waitingTime := waitingTime',
              totalWait := totalWait st + waitingTime',
              totalTurnaround := totalTurnaround st + turnaround,
              lastCompletion := completion,
              schedule := (schedule st)[i := [ProcessID p, Priority p, BurstDuration p,
                                              ArrivalTime p, waitingTime', turnaround,
                                              completion]],
              serviceTime := serviceTime',
              gantt := gantt st @ [\<lparr>PID = ProcessID p, Start = start,
                                       Stop = serviceTime'\<rparr>] \<rparr>)"

definition FCFSInit :: "Process list \<Rightarrow> FCFSState" where
  "FCFSInit processes =
     \<lparr> gantt = [], schedule = replicate (length processes) [],
       serviceTime = 0, totalWait = 0, totalTurnaround = 0, lastCompletion = 0,
       waitingTime = 0 \<rparr>"

definition FCFSAfter :: "Process list \<Rightarrow> nat \<Rightarrow> FCFSState" where
  \<comment> \<open>the variables after the passes for the indices below \<open>k\<close>\<close>
  "FCFSAfter processes k = foldl (FCFSBody processes) (FCFSInit processes) [0..<k]"

definition FCFSLoop :: "Process list \<Rightarrow> FCFSState" where
  "FCFSLoop processes = FCFSAfter processes (length processes)"

text \<open>
  Every scheduler is given the caller's slice, which shares its backing array with the
  caller. The model returns the contents of that array after the call next to the report.
\<close>

definition FCFSSchedule :: "Process list \<Rightarrow> Process list \<times> Report" where
  "FCFSSchedule processes =
     (let st = FCFSLoop processes;
          count = int (length processes)
      in (processes,
          \<lparr> gantt = gantt st, schedule = schedule st,
            aveWait = fdiv (totalWait st) count,
            aveTurnaround = fdiv (totalTurnaround st) count,
            aveThroughput = fdiv count (lastCompletion st) \<rparr>))"

section \<open>The working slice of SJFSchedule and SJFPrioritySchedule\<close>

text \<open>
  \<open>remainingProcesses\<close> is a slice over a backing array of its own (\<open>make\<close> and
  \<open>copy\<close>), and \<open>shortest\<close> is a pointer to one slot of that array. The model keeps
  the array in two parts: \<open>remainingProcesses\<close>, the slots below the slice's length,
  and \<open>tailSlots\<close>, the slots from the length up to the capacity.

  \<open>append(s[:i], s[i+1:]...)\<close> never exceeds the capacity, so it works in place: the
  elements after \<open>i\<close> move one slot down, the slot that was last keeps its contents and
  falls out of the slice.
\<close>

record Acc = Out +
  turn :: int

record SJFState = Acc +
  currTime :: int
  waitTime :: int
  remainingProcesses :: "Process list"
  tailSlots :: "Process list"

definition removeAt :: "nat \<Rightarrow> 'a list \<Rightarrow> 'a list" where
  "removeAt i s = take i s @ drop (Suc i) s"

definition removeInPlace :: "nat \<Rightarrow> 'a list \<times> 'a list \<Rightarrow> 'a list \<times> 'a list" where
  "removeInPlace i arr = (case arr of (s, beyond) \<Rightarrow> (removeAt i s, last s # beyond))"

definition slot :: "'a list \<times> 'a list \<Rightarrow> nat \<Rightarrow> 'a" where
  \<comment> \<open>reading through a pointer to slot \<open>k\<close> of the backing array\<close>
  "slot arr k = (fst arr @ snd arr) ! k"

definition row :: "Process \<Rightarrow> int \<Rightarrow> Row" where
  \<comment> \<open>the table row of \<open>SJFSchedule\<close> and \<open>SJFPrioritySchedule\<close> for a process started at \<open>clock\<close>\<close>
  "row p clock =
     [ProcessID p, Priority p, BurstDuration p, ArrivalTime p,
      clock - ArrivalTime p, clock + BurstDuration p - ArrivalTime p,
      clock + BurstDuration p]"

definition SJFInit :: "Process list \<Rightarrow> SJFState" where
  "SJFInit processes =
     \<lparr> gantt = [], schedule = replicate (length processes) [], turn = 0,
       currTime = 0, waitTime = 0, remainingProcesses = processes, tailSlots = [] \<rparr>"

definition SJFReport :: "Process list \<Rightarrow> SJFState \<Rightarrow> Report" where
  "SJFReport processes st =
     \<lparr> gantt = gantt st, schedule = schedule st,
       aveWait = fdiv (waitTime st) (int (length processes)),
       aveTurnaround = fdiv (turn st) (int (length processes)),
       aveThroughput = fdiv (int (length processes)) (currTime st) \<rparr>"

section \<open>SJFSchedule\<close>

definition shortestIndex :: "Process list \<Rightarrow> nat" where
  "shortestIndex rp =
     foldl (\<lambda>s i. if BurstDuration (rp ! i) < BurstDuration (rp ! s) then i else s)
       0 [0..<length rp]"

text \<open>
  One pass of \<open>for len(remainingProcesses) > 0\<close>. The last statement,
  \<open>currTime += shortest.BurstDuration\<close>, reads through \<open>shortest\<close> after the removal
  has rewritten the slot it points to.
\<close>

definition SJFBody :: "SJFState \<Rightarrow> SJFState" where
  "SJFBody st =
     (let rp = remainingProcesses st;
          k = shortestIndex rp;
          shortest = rp ! k;
          clock = (if ArrivalTime shortest > currTime st then ArrivalTime shortest
                   else currTime st);
          waitTime' = waitTime st + (clock - ArrivalTime shortest);
          arr' = removeInPlace k (rp, tailSlots st)
      in st\<lparr> gantt := gantt st @ [\<lparr>PID = ProcessID shortest, Start = clock,
                                       Stop = clock + BurstDuration shortest\<rparr>],
              waitTime := waitTime',
              turn := turn st
                        + ((clock + BurstDuration shortest - ArrivalTime shortest) - waitTime'),
              schedule := schedule st @ [row shortest clock],
              remainingProcesses := fst arr',
              tailSlots := snd arr',
              currTime := clock + BurstDuration (slot arr' k) \<rparr>)"

function SJFLoop :: "SJFState \<Rightarrow> SJFState" where
  "SJFLoop st = (if length (remainingProcesses st) > 0 then SJFLoop (SJFBody st) else st)"
  by pat_completeness auto

definition SJFSchedule :: "Process list \<Rightarrow> Process list \<times> Report" where
  "SJFSchedule processes =
     (let processes' = sortSlice lessArrival processes
      in (processes', SJFReport processes' (SJFLoop (SJFInit processes'))))"

section \<open>SJFPrioritySchedule\<close>

text \<open>The scan for \<open>shortest\<close>; the pointer is the index of its slot, \<open>nil\<close> is \<open>None\<close>.\<close>

definition pickStep :: "int \<Rightarrow> Process list \<Rightarrow> nat option \<Rightarrow> nat \<Rightarrow> nat option" where
  \<comment> \<open>the body of \<open>for i := range remainingProcesses\<close>\<close>
  "pickStep clock rp sh i =
     (if ArrivalTime (rp ! i) \<le> clock then
        (case sh of
           None \<Rightarrow> Some i
         | Some s \<Rightarrow>
             if BurstDuration (rp ! i) < BurstDuration (rp ! s)
                \<or> (BurstDuration (rp ! i) = BurstDuration (rp ! s)
                    \<and> Priority (rp ! i) < Priority (rp ! s))
             then Some i else Some s)
      else sh)"

definition pickShortest :: "int \<Rightarrow> Process list \<Rightarrow> nat option" where
  "pickShortest clock rp = foldl (pickStep clock rp) None [0..<length rp]"

definition earlier :: "int \<Rightarrow> int \<Rightarrow> Process \<Rightarrow> int" where
  \<comment> \<open>the body of \<open>for _, process := range remainingProcesses\<close> in the idle branch\<close>
  "earlier clock nxt p =
     (if ArrivalTime p > clock \<and> ArrivalTime p < nxt then ArrivalTime p else nxt)"

definition nextArrivalTime :: "int \<Rightarrow> Process list \<Rightarrow> int" where
  "nextArrivalTime clock rp = foldl (earlier clock) (ArrivalTime (rp ! 0)) rp"

text \<open>The removal loop: the first index whose process has the given id, then \<open>break\<close>.\<close>

fun firstWithID :: "int \<Rightarrow> Process list \<Rightarrow> nat option" where
  "firstWithID pid [] = None"
| "firstWithID pid (p # ps) =
     (if ProcessID p = pid then Some 0 else map_option Suc (firstWithID pid ps))"

definition SJFPriorityBody :: "SJFState \<Rightarrow> SJFState" where
  "SJFPriorityBody st =
     (let rp = remainingProcesses st
      in case pickShortest (currTime st) rp of
           None \<Rightarrow> st\<lparr> currTime := nextArrivalTime (currTime st) rp \<rparr>
         | Some k \<Rightarrow>
             (let shortest = rp ! k;
                  clock = currTime st;
                  waitTime' = waitTime st + (clock - ArrivalTime shortest);
                  arr' = (case firstWithID (ProcessID shortest) rp of
                            None \<Rightarrow> (rp, tailSlots st)
                          | Some i \<Rightarrow> removeInPlace i (rp, tailSlots st))
              in st\<lparr> gantt := gantt st @ [\<lparr>PID = ProcessID shortest, Start = clock,
                                               Stop = clock + BurstDuration shortest\<rparr>],
                      waitTime := waitTime',
                      turn := turn st
                                + ((clock + BurstDuration shortest - ArrivalTime shortest)
                                   - waitTime'),
                      schedule := schedule st @ [row shortest clock],
                      remainingProcesses := fst arr',
                      tailSlots := snd arr',
                      currTime := clock + BurstDuration (slot arr' k) \<rparr>))"

definition idle :: "SJFState \<Rightarrow> bool" where
  \<comment> \<open>the scan of the next pass would find no eligible process\<close>
  "idle st = (pickShortest (currTime st) (remainingProcesses st) = None)"

function SJFPriorityLoop :: "SJFState \<Rightarrow> SJFState" where
  "SJFPriorityLoop st =
     (if length (remainingProcesses st) > 0 then SJFPriorityLoop (SJFPriorityBody st) else st)"
  by pat_completeness auto

definition SJFPrioritySchedule :: "Process list \<Rightarrow> Process list \<times> Report" where
  "SJFPrioritySchedule processes =
     (let processes' = sortSlice lessArrivalPriorityBurst processes
      in (processes', SJFReport processes' (SJFPriorityLoop (SJFInit processes'))))"

section \<open>RRSchedule\<close>

record RRState = Acc +
  wait :: int
  elapsed :: int
  queue :: "Process list"

text \<open>
  One pass of \<open>for len(queue) > 0\<close>. \<open>p\<close> is a copy of the head, so the decrement of
  \<open>p.BurstDuration\<close> changes that copy only, and the copy is what is appended again.
\<close>

definition RRBody :: "int \<Rightarrow> RRState \<Rightarrow> RRState" where
  "RRBody quantum st =
     (let p = hd (queue st);
          queue' = tl (queue st);
          ran = min64 (BurstDuration p) quantum;
          elapsed' = elapsed st + ran;
          p' = p\<lparr> BurstDuration := BurstDuration p - ran \<rparr>;
          st' = st\<lparr> gantt := gantt st @ [\<lparr>PID = ProcessID p, Start = elapsed st,
                                            Stop = elapsed st + ran\<rparr>],
                    elapsed := elapsed' \<rparr>
      in if BurstDuration p' > 0 then st'\<lparr> queue := queue' @ [p'] \<rparr>
         else (let w = elapsed' - ArrivalTime p' - priorityPenalty p';
                   t = elapsed' - ArrivalTime p'
               in st'\<lparr> queue := queue',
                        wait := wait st + w,
                        turn := turn st + t,
                        schedule := schedule st @
                          [[ProcessID p', Priority p', BurstDuration p', ArrivalTime p',
                            w, t, elapsed']] \<rparr>))"

text \<open>
  Nothing in the source bounds this loop: with a quantum of zero a process with a
  positive burst is appended again unchanged for ever. Not returning is \<open>None\<close>.
\<close>

partial_function (option) RRLoop :: "int \<Rightarrow> RRState \<Rightarrow> RRState option" where
  "RRLoop quantum st =
     (if length (queue st) > 0 then RRLoop quantum (RRBody quantum st) else Some st)"

declare RRLoop.simps [code]

definition RRInit :: "Process list \<Rightarrow> RRState" where
  "RRInit processes =
     \<lparr> gantt = [], schedule = replicate (length processes) [], turn = 0,
       wait = 0, elapsed = 0, queue = processes \<rparr>"

definition RRReport :: "Process list \<Rightarrow> RRState \<Rightarrow> Report" where
  "RRReport processes st =
     \<lparr> gantt = gantt st, schedule = schedule st,
       aveWait = fdiv (wait st) (int (length processes)),
       aveTurnaround = fdiv (turn st) (int (length processes)),
       aveThroughput = fdiv (int (length processes)) (elapsed st) \<rparr>"

definition RRSchedule :: "Process list \<Rightarrow> int \<Rightarrow> (Process list \<times> Report) option" where
  "RRSchedule processes quantum =
     (let processes' = sortSlice lessArrival processes
      in map_option (\<lambda>st. (processes', RRReport processes' st))
           (RRLoop quantum (RRInit processes')))"

section \<open>main\<close>

text \<open>
  The four calls of \<open>main\<close> on the one slice it loaded: each call is handed what the
  previous call left in the caller's array.
\<close>

definition runAll :: "Process list \<Rightarrow> (Report \<times> Report \<times> Report \<times> Report) option" where
  "runAll processes =
     (case FCFSSchedule processes of (ps1, fcfs) \<Rightarrow>
      case SJFSchedule ps1 of (ps2, sjf) \<Rightarrow>
      case SJFPrioritySchedule ps2 of (ps3, prio) \<Rightarrow>
      map_option (\<lambda>(ps4, rr). (fcfs, sjf, prio, rr)) (RRSchedule ps3 2))"

section \<open>The runs on which the unbounded integers are the program's numbers\<close>

text \<open>
  The definitions above compute on unbounded integers. A pass of a loop \<^emph>\<open>fits\<close> when
  every number it works with is one the program can hold: the fields and variables it
  reads and the result of every \<open>int64\<close> operation are in the 64-bit range, and every
  number that goes through a \<open>float64\<close> (a converted value, an accumulator before and
  after \<open>+=\<close>, the difference \<open>float64(...) - waitTime\<close>) is a \<open>float64\<close> value. On a
  pass that fits the program computes what the definition computes; a run fits when
  each of its passes does.
\<close>

definition int64Process :: "Process \<Rightarrow> bool" where
  \<comment> \<open>a value of the Go struct \<open>Process\<close>\<close>
  "int64Process p \<longleftrightarrow>
     int64 (ProcessID p) \<and> int64 (ArrivalTime p) \<and> int64 (BurstDuration p) \<and> int64 (Priority p)"

definition FCFSFits :: "Process list \<Rightarrow> FCFSState \<Rightarrow> nat \<Rightarrow> bool" where
  \<comment> \<open>the pass of \<open>FCFSSchedule\<close> for index \<open>i\<close>\<close>
  "FCFSFits processes st i =
     (let p = processes ! i;
          waitingTime' = (if ArrivalTime p > 0 then serviceTime st - ArrivalTime p
                          else waitingTime st);
          turnaround = BurstDuration p + waitingTime'
      in int64 (serviceTime st) \<and> int64 (waitingTime st)
         \<and> isFloat64 (totalWait st) \<and> isFloat64 (totalTurnaround st)
         \<and> int64 waitingTime'
         \<and> isFloat64 waitingTime' \<and> isFloat64 (totalWait st + waitingTime')
         \<and> int64 (waitingTime' + ArrivalTime p)
         \<and> int64 turnaround
         \<and> isFloat64 turnaround \<and> isFloat64 (totalTurnaround st + turnaround)
         \<and> int64 (BurstDuration p + ArrivalTime p)
         \<and> int64 (BurstDuration p + ArrivalTime p + waitingTime')
         \<and> int64 (serviceTime st + BurstDuration p))"

definition FCFSRunFits :: "Process list \<Rightarrow> bool" where
  "FCFSRunFits processes \<longleftrightarrow>
     list_all int64Process processes
     \<and> list_all (\<lambda>i. FCFSFits processes (FCFSAfter processes i) i) [0..<length processes]"

definition shortestFits :: "SJFState \<Rightarrow> Process \<Rightarrow> int \<Rightarrow> int \<Rightarrow> bool" where
  \<comment> \<open>the statements that \<open>SJFSchedule\<close> and \<open>SJFPrioritySchedule\<close> share: \<open>shortest\<close> is
      started at \<open>clock\<close>, and \<open>burst'\<close> is what \<open>currTime += shortest.BurstDuration\<close> reads\<close>
  "shortestFits st shortest clock burst' =
     (let w = clock - ArrivalTime shortest;
          t = clock + BurstDuration shortest - ArrivalTime shortest;
          waitTime' = waitTime st + w
      in list_all int64Process (remainingProcesses st @ tailSlots st)
         \<and> int64 (currTime st) \<and> isFloat64 (waitTime st) \<and> isFloat64 (turn st)
         \<and> int64 (clock + BurstDuration shortest)
         \<and> int64 w \<and> isFloat64 w \<and> isFloat64 waitTime'
         \<and> int64 t \<and> isFloat64 t
         \<and> isFloat64 (t - waitTime') \<and> isFloat64 (turn st + (t - waitTime'))
         \<and> int64 (clock + burst'))"

definition SJFFits :: "SJFState \<Rightarrow> bool" where
  "SJFFits st =
     (let rp = remainingProcesses st;
          k = shortestIndex rp;
          shortest = rp ! k;
          clock = (if ArrivalTime shortest > currTime st then ArrivalTime shortest
                   else currTime st)
      in shortestFits st shortest clock
           (BurstDuration (slot (removeInPlace k (rp, tailSlots st)) k)))"

function SJFRunFits :: "SJFState \<Rightarrow> bool" where
  "SJFRunFits st =
     (if length (remainingProcesses st) > 0 then SJFFits st \<and> SJFRunFits (SJFBody st)
      else True)"
  by pat_completeness auto

definition SJFPriorityFits :: "SJFState \<Rightarrow> bool" where
  "SJFPriorityFits st =
     (let rp = remainingProcesses st
      in case pickShortest (currTime st) rp of
           None \<Rightarrow> list_all int64Process (rp @ tailSlots st) \<and> int64 (currTime st)
         | Some k \<Rightarrow>
             shortestFits st (rp ! k) (currTime st)
               (BurstDuration
                  (slot (case firstWithID (ProcessID (rp ! k)) rp of
                           None \<Rightarrow> (rp, tailSlots st)
                         | Some i \<Rightarrow> removeInPlace i (rp, tailSlots st)) k)))"

function SJFPriorityRunFits :: "SJFState \<Rightarrow> bool" where
  "SJFPriorityRunFits st =
     (if length (remainingProcesses st) > 0
      then SJFPriorityFits st \<and> SJFPriorityRunFits (SJFPriorityBody st)
      else True)"
  by pat_completeness auto

definition RRFits :: "int \<Rightarrow> RRState \<Rightarrow> bool" where
  "RRFits quantum st =
     (let p = hd (queue st);
          ran = min64 (BurstDuration p) quantum;
          elapsed' = elapsed st + ran;
          p' = p\<lparr> BurstDuration := BurstDuration p - ran \<rparr>;
          w = elapsed' - ArrivalTime p' - priorityPenalty p';
          t = elapsed' - ArrivalTime p'
      in int64 quantum \<and> list_all int64Process (queue st)
         \<and> int64 (elapsed st) \<and> isFloat64 (wait st) \<and> isFloat64 (turn st)
         \<and> int64 elapsed' \<and> int64 (BurstDuration p')
         \<and> (BurstDuration p' > 0
             \<or> (int64 t \<and> int64 (Priority p' - 1) \<and> int64 (priorityPenalty p') \<and> int64 w
                 \<and> isFloat64 w \<and> isFloat64 t
                 \<and> isFloat64 (wait st + w) \<and> isFloat64 (turn st + t))))"

text \<open>
  The loop of \<open>RRSchedule\<close> once more, checking each pass: \<open>Some True\<close> when the loop
  returns and every pass fitted.
\<close>

partial_function (option) RRRunFits :: "int \<Rightarrow> RRState \<Rightarrow> bool option" where
  "RRRunFits quantum st =
     (if length (queue st) > 0
      then (if RRFits quantum st then RRRunFits quantum (RRBody quantum st) else Some False)
      else Some True)"

declare RRRunFits.simps [code]

section \<open>Measures and the round-robin pass in the specification's words\<close>

definition SJFPriorityMeasure :: "SJFState \<Rightarrow> nat" where
  \<comment> \<open>two passes at most for every remaining process: one idle skip and one selection\<close>
  "SJFPriorityMeasure st = 2 * length (remainingProcesses st) + (if idle st then 1 else 0)"

definition rrWork :: "RRState \<Rightarrow> nat" where
  \<comment> \<open>the turns the queue can still take: the positive part of each remaining burst, plus one\<close>
  "rrWork st = (\<Sum>p\<leftarrow>queue st. Suc (nat (BurstDuration p)))"

text \<open>
  \<open>RRSpecStep\<close> is not taken from the source. It is one pass of the round-robin loop as
  section 4.4 of the specification words it: dequeue the head, run it for
  \<open>min(remainingBurst, quantum)\<close>, append the slice and advance the clock, then either
  put it back at the tail (remaining burst still positive) or record its metrics.
\<close>

inductive RRSpecStep :: "int \<Rightarrow> RRState \<Rightarrow> RRState \<Rightarrow> bool" for q :: int where
  requeue:
    "queue st = p # rest \<Longrightarrow> d = min (BurstDuration p) q \<Longrightarrow> 0 < BurstDuration p - d \<Longrightarrow>
     RRSpecStep q st
       (st\<lparr> gantt := gantt st @ [\<lparr>PID = ProcessID p, Start = elapsed st,
                                     Stop = elapsed st + d\<rparr>],
            elapsed := elapsed st + d,
            queue := rest @ [p\<lparr>BurstDuration := BurstDuration p - d\<rparr>] \<rparr>)"
| complete:
    "queue st = p # rest \<Longrightarrow> d = min (BurstDuration p) q \<Longrightarrow> \<not> 0 < BurstDuration p - d \<Longrightarrow>
     turnaround = elapsed st + d - ArrivalTime p \<Longrightarrow>
     w = turnaround - (Priority p - 1) * 5 \<Longrightarrow>
     RRSpecStep q st
       (st\<lparr> gantt := gantt st @ [\<lparr>PID = ProcessID p, Start = elapsed st,
                                     Stop = elapsed st + d\<rparr>],
            elapsed := elapsed st + d,
            queue := rest,
            wait := wait st + w,
            turn := turn st + turnaround,
            schedule := schedule st @
              [[ProcessID p, Priority p, BurstDuration p - d, ArrivalTime p, w, turnaround,
                elapsed st + d]] \<rparr>)"

code_pred RRSpecStep .

definition sliceTime :: "int \<Rightarrow> TimeSlice list \<Rightarrow> int" where
  \<comment> \<open>the sum of \<open>Stop - Start\<close> over the slices of a Gantt chart that bear the given pid\<close>
  "sliceTime pid g = (\<Sum>s\<leftarrow>filter (\<lambda>s. PID s = pid) g. Stop s - Start s)"

definition work :: "int \<Rightarrow> Process list \<Rightarrow> int" where
  \<comment> \<open>the sum of the bursts of the processes of a list that bear the given pid\<close>
  "work pid ps = (\<Sum>p\<leftarrow>filter (\<lambda>p. ProcessID p = pid) ps. BurstDuration p)"

definition tableRow :: "Process set \<Rightarrow> Row \<Rightarrow> bool" where
  \<comment> \<open>a \<open>nil\<close> row, or the row of a process of \<open>S\<close> started at some clock value\<close>
  "tableRow S r = (r = [] \<or> (\<exists>p\<in>S. \<exists>c. r = row p c))"

definition metricsRow :: "Row \<Rightarrow> bool" where
  \<comment> \<open>a \<open>nil\<close> row, or a full row with burst 0, turnaround = exit - arrival and
      wait = turnaround - (priority - 1) * 5\<close>
  "metricsRow r = (r = [] \<or> (length r = 7 \<and> r ! 2 = 0 \<and> r ! 5 = r ! 6 - r ! 3
                              \<and> r ! 4 = r ! 5 - (r ! 1 - 1) * 5))"

section \<open>float64: conversion and division round to the nearest value\<close>

lemma roundEven_close: "\<bar>real_of_int (roundEven x) - x\<bar> \<le> 1 / 2"
  unfolding roundEven_def Let_def by (auto; linarith)

lemma roundEven_of_int: "roundEven (of_int n) = n"
  by (simp add: roundEven_def)

lemma bitlen_le_53: "abs x < 2 ^ 53 \<Longrightarrow> bitlen (abs x) \<le> 53"
  using bitlen_le_iff_power [of "abs x" 53] by simp

text \<open>Every integer up to \<open>2^53\<close> in size is a \<open>float64\<close> value.\<close>

lemma isFloat64_small: "abs x \<le> 2 ^ 53 \<Longrightarrow> isFloat64 x"
proof (cases "abs x = 2 ^ 53")
  case True
  then have "x = 2 ^ 53 \<or> x = - (2 ^ 53)" by linarith
  then show ?thesis unfolding isFloat64_def by (rule disjE) (simp_all, code_simp+)
next
  case False
  assume "abs x \<le> 2 ^ 53"
  with False have "abs x < 2 ^ 53" by simp
  from bitlen_le_53 [OF this] show ?thesis by (simp add: isFloat64_def f64_def)
qed

lemma pow2_bitlen:
  assumes "0 < x"
  shows "2 powi (bitlen x - 1) \<le> real_of_int x" and "real_of_int x < 2 powi bitlen x"
proof -
  from assms have b1: "1 \<le> bitlen x" by (simp add: bitlen_alt_def)
  from bitlen_bounds [OF assms]
  have lo: "2 ^ nat (bitlen x - 1) \<le> x" and hi: "x < 2 ^ nat (bitlen x)"
    by simp_all
  from lo have "real_of_int (2 ^ nat (bitlen x - 1)) \<le> real_of_int x" by linarith
  with b1 show "2 powi (bitlen x - 1) \<le> real_of_int x" by (simp add: power_int_def)
  from hi have "real_of_int x < real_of_int (2 ^ nat (bitlen x))" by linarith
  with b1 show "real_of_int x < 2 powi bitlen x" by (simp add: power_int_def)
qed

text \<open>
  \<open>f64quot a b\<close> is \<open>a / b\<close> up to the rounding of a 53-bit result: the two differ by at
  most half a unit in the last place, which is at most \<open>2^-53\<close> of the quotient.
\<close>

lemma f64quot_error:
  assumes "b \<noteq> 0"
  shows "\<bar>f64quot a b - real_of_int a / real_of_int b\<bar>
           \<le> \<bar>real_of_int a / real_of_int b\<bar> / 2 ^ 53"
proof (cases "a = 0")
  case True
  then show ?thesis by (simp add: f64quot_def)
next
  case False
  define x where "x = \<bar>real_of_int a\<bar> / \<bar>real_of_int b\<bar>"
  define e0 where "e0 = bitlen (abs a) - bitlen (abs b) - 53"
  define e where "e = (if 2 ^ 53 \<le> x / 2 powi e0 then e0 + 1 else e0)"
  define m where "m = x / 2 powi e"
  define s where "s = sgn a * sgn b"
  have r: "f64quot a b = real_of_int (s * roundEven m) * 2 powi e"
    using False by (simp add: f64quot_def Let_def x_def e0_def e_def m_def s_def)
  from False have a: "0 < abs a" by simp
  from assms have b: "0 < abs b" by simp
  have "2 powi (bitlen (abs a) - 1) \<le> real_of_int (abs a)" by (rule pow2_bitlen [OF a])
  moreover have "real_of_int (abs b) < 2 powi bitlen (abs b)" by (rule pow2_bitlen [OF b])
  ultimately have "2 powi (bitlen (abs a) - 1) / 2 powi bitlen (abs b) \<le> x"
    unfolding x_def using b by (intro frac_le) simp_all
  then have "2 powi (bitlen (abs a) - 1 - bitlen (abs b)) \<le> x" by (simp add: power_int_diff)
  then have "2 powi (bitlen (abs a) - 1 - bitlen (abs b)) / 2 powi e0 \<le> x / 2 powi e0"
    by (simp add: divide_right_mono)
  then have "2 powi (bitlen (abs a) - 1 - bitlen (abs b) - e0) \<le> x / 2 powi e0"
    by (simp add: power_int_diff)
  then have lo0: "2 ^ 52 \<le> x / 2 powi e0" by (simp add: e0_def)
  have m52: "2 ^ 52 \<le> m"
  proof (cases "2 ^ 53 \<le> x / 2 powi e0")
    case True
    then have "m = x / 2 powi e0 / 2" by (simp add: m_def e_def power_int_add)
    with True show ?thesis by simp
  next
    case False
    with lo0 show ?thesis by (simp add: m_def e_def)
  qed
  have q: "real_of_int a / real_of_int b = real_of_int s * m * 2 powi e"
    using False assms by (simp add: s_def m_def x_def sgn_if abs_if)
  have s1: "\<bar>real_of_int s\<bar> = 1" using False assms by (simp add: s_def sgn_if)
  have "f64quot a b - real_of_int a / real_of_int b
          = real_of_int s * (real_of_int (roundEven m) - m) * 2 powi e"
    by (simp add: r q algebra_simps)
  then have "\<bar>f64quot a b - real_of_int a / real_of_int b\<bar>
          = \<bar>real_of_int (roundEven m) - m\<bar> * 2 powi e"
    using s1 by (simp add: abs_mult)
  also have "\<dots> \<le> 1 / 2 * 2 powi e"
    by (intro mult_right_mono roundEven_close) simp
  also have "\<dots> \<le> m / 2 ^ 53 * 2 powi e"
    using m52 by (intro mult_right_mono) simp_all
  also have "\<dots> = \<bar>real_of_int a / real_of_int b\<bar> / 2 ^ 53"
    using s1 m52 by (simp add: q abs_mult)
  finally show ?thesis .
qed

lemma f64_error: "\<bar>real_of_int (f64 x) - real_of_int x\<bar> \<le> \<bar>real_of_int x\<bar> / 2 ^ 53"
proof (cases "bitlen (abs x) - 53 \<le> 0")
  case True
  then show ?thesis by (simp add: f64_def)
next
  case False
  define k where "k = bitlen (abs x) - 53"
  define m where "m = real_of_int (abs x) / 2 powi k"
  from False have kpos: "0 < k" by (simp add: k_def)
  then have x0: "0 < abs x" using bitlen_zero by (auto simp: k_def)
  have r: "f64 x = sgn x * roundEven m * 2 ^ nat k"
    using False by (simp add: f64_def Let_def k_def m_def)
  have pk: "(2::real) ^ nat k = 2 powi k" using kpos by (simp add: power_int_def)
  have "2 powi (bitlen (abs x) - 1) \<le> real_of_int (abs x)" by (rule pow2_bitlen [OF x0])
  then have "2 powi (bitlen (abs x) - 1) / 2 powi k \<le> m"
    unfolding m_def by (simp add: divide_right_mono)
  then have m52: "2 ^ 52 \<le> m" by (simp add: k_def flip: power_int_diff)
  have xm: "real_of_int x = real_of_int (sgn x) * m * 2 powi k"
    by (simp add: m_def sgn_if abs_if)
  have s1: "\<bar>real_of_int (sgn x)\<bar> = 1" using x0 by (simp add: sgn_if)
  have "real_of_int (f64 x) - real_of_int x
          = real_of_int (sgn x) * (real_of_int (roundEven m) - m) * 2 powi k"
  proof -
    have "real_of_int (f64 x) = real_of_int (sgn x) * real_of_int (roundEven m) * 2 powi k"
      by (simp add: r pk)
    moreover note xm
    ultimately have "real_of_int (f64 x) - real_of_int x
          = real_of_int (sgn x) * real_of_int (roundEven m) * 2 powi k
            - real_of_int (sgn x) * m * 2 powi k" by linarith
    then show ?thesis by (simp add: algebra_simps)
  qed
  then have "\<bar>real_of_int (f64 x) - real_of_int x\<bar> = \<bar>real_of_int (roundEven m) - m\<bar> * 2 powi k"
    using s1 by (simp add: abs_mult)
  also have "\<dots> \<le> 1 / 2 * 2 powi k"
    by (intro mult_right_mono roundEven_close) simp
  also have "\<dots> \<le> m / 2 ^ 53 * 2 powi k"
    using m52 by (intro mult_right_mono) simp_all
  also have "\<dots> = \<bar>real_of_int x\<bar> / 2 ^ 53"
    using m52 by (simp add: m_def)
  finally show ?thesis .
qed

lemma f64_eq_0_iff: "f64 x = 0 \<longleftrightarrow> x = 0"
proof
  assume z: "f64 x = 0"
  show "x = 0"
  proof (rule ccontr)
    assume "x \<noteq> 0"
    then have "\<bar>real_of_int x\<bar> / 2 ^ 53 < \<bar>real_of_int x\<bar>" by simp
    with f64_error [of x] z show False by simp
  qed
next
  assume "x = 0"
  then show "f64 x = 0" by (simp add: f64_def)
qed

text \<open>What \<open>fdiv\<close> returns, written out.\<close>

lemma fdiv_value:
  "(b = 0 \<and> 0 < a \<longrightarrow> fdiv a b = PosInf)
   \<and> (b \<noteq> 0 \<longrightarrow>
        fdiv a b = Finite (f64quot (f64 a) (f64 b))
        \<and> \<bar>f64quot (f64 a) (f64 b) - real_of_int (f64 a) / real_of_int (f64 b)\<bar>
            \<le> \<bar>real_of_int (f64 a) / real_of_int (f64 b)\<bar> / 2 ^ 53)"
  using f64quot_error [of "f64 b" "f64 a"] by (simp add: fdiv_def f64_eq_0_iff)

section \<open>sort.Slice returns an ordered permutation\<close>

lemma mset_insertDown: "mset (insertDown lt x ys) = add_mset x (mset ys)"
  by (induction ys) simp_all

lemma set_insertDown: "set (insertDown lt x ys) = insert x (set ys)"
  by (induction ys) auto

lemma mset_insert_all:
  "mset (foldl (\<lambda>acc x. insertDown lt x acc) acc xs) = mset acc + mset xs"
  by (induction xs arbitrary: acc) (simp_all add: mset_insertDown)

lemma mset_sortSlice: "mset (sortSlice lt xs) = mset xs"
  by (simp add: sortSlice_def mset_insert_all)

lemma length_sortSlice: "length (sortSlice lt xs) = length xs"
  using mset_sortSlice [of lt xs] by (metis size_mset)

lemma set_sortSlice: "set (sortSlice lt xs) = set xs"
  using mset_sortSlice [of lt xs] by (metis set_mset_mset)

text \<open>
  The comparators of the source are strict weak orders: asymmetric, and "not less" is
  transitive. That is all the insertion needs to keep the prefix ordered.
\<close>

lemma sorted_insertDown:
  assumes asym: "\<And>a b. lt a b \<Longrightarrow> \<not> lt b a"
    and ntrans: "\<And>a b c. \<not> lt a b \<Longrightarrow> \<not> lt b c \<Longrightarrow> \<not> lt a c"
  shows "sorted_wrt (\<lambda>a b. \<not> lt a b) ys \<Longrightarrow> sorted_wrt (\<lambda>a b. \<not> lt a b) (insertDown lt x ys)"
proof (induction ys)
  case Nil
  then show ?case by simp
next
  case (Cons y ys)
  show ?case
  proof (cases "lt x y")
    case True
    with Cons asym show ?thesis by (auto simp: set_insertDown)
  next
    case False
    with Cons ntrans show ?thesis by auto
  qed
qed

lemma sorted_insert_all:
  assumes asym: "\<And>a b. lt a b \<Longrightarrow> \<not> lt b a"
    and ntrans: "\<And>a b c. \<not> lt a b \<Longrightarrow> \<not> lt b c \<Longrightarrow> \<not> lt a c"
  shows "sorted_wrt (\<lambda>a b. \<not> lt a b) acc \<Longrightarrow>
         sorted_wrt (\<lambda>a b. \<not> lt a b) (foldl (\<lambda>acc x. insertDown lt x acc) acc xs)"
proof (induction xs arbitrary: acc)
  case Nil
  then show ?case by simp
next
  case (Cons x xs)
  have "sorted_wrt (\<lambda>a b. \<not> lt a b) (insertDown lt x acc)"
    by (rule sorted_insertDown) (fact asym, fact ntrans, fact Cons.prems)
  then show ?case using Cons.IH by simp
qed

lemma sorted_sortSlice:
  assumes asym: "\<And>a b. lt a b \<Longrightarrow> \<not> lt b a"
    and ntrans: "\<And>a b c. \<not> lt a b \<Longrightarrow> \<not> lt b c \<Longrightarrow> \<not> lt a c"
  shows "sorted_wrt (\<lambda>a b. \<not> lt b a) (sortSlice lt xs)"
proof -
  have "sorted_wrt (\<lambda>a b. \<not> lt a b) (foldl (\<lambda>acc x. insertDown lt x acc) [] xs)"
    by (rule sorted_insert_all) (fact asym, fact ntrans, simp)
  then show ?thesis by (simp add: sortSlice_def sorted_wrt_rev)
qed

lemma sorted_sortSlice_lessArrival: "sorted (map ArrivalTime (sortSlice lessArrival xs))"
proof -
  have "sorted_wrt (\<lambda>a b. \<not> lessArrival b a) (sortSlice lessArrival xs)"
    by (rule sorted_sortSlice) (auto simp: lessArrival_def)
  then show ?thesis by (simp add: sorted_map lessArrival_def not_less)
qed

lemma sorted_sortSlice_lessArrivalPriorityBurst:
  "sorted_wrt (\<lambda>a b. \<not> lessArrivalPriorityBurst b a) (sortSlice lessArrivalPriorityBurst xs)"
  by (rule sorted_sortSlice) (auto simp: lessArrivalPriorityBurst_def split: if_splits)

section \<open>The loops of SJFSchedule and SJFPrioritySchedule end\<close>

lemma length_removeAt: "i < length s \<Longrightarrow> length (removeAt i s) = length s - 1"
  by (simp add: removeAt_def)

lemma scan_index_bound:
  "s0 < m \<Longrightarrow> n \<le> m \<Longrightarrow> foldl (\<lambda>s i. if c i s then i else s) s0 [0..<n] < m"
  by (induction n) auto

lemma shortestIndex_less: "rp \<noteq> [] \<Longrightarrow> shortestIndex rp < length rp"
  unfolding shortestIndex_def by (rule scan_index_bound) auto

termination SJFLoop
  by (relation "measure (\<lambda>st. length (remainingProcesses st))")
     (auto simp: SJFBody_def Let_def removeInPlace_def length_removeAt shortestIndex_less)

declare SJFLoop.simps [simp del]

termination SJFRunFits
  by (relation "measure (\<lambda>st. length (remainingProcesses st))")
     (auto simp: SJFBody_def Let_def removeInPlace_def length_removeAt shortestIndex_less)

declare SJFRunFits.simps [simp del]

lemma pickShortest_scan:
  "n \<le> length rp \<Longrightarrow>
   (case foldl (pickStep clock rp) None [0..<n] of
      None \<Rightarrow> (\<forall>i<n. clock < ArrivalTime (rp ! i))
    | Some k \<Rightarrow> k < n \<and> ArrivalTime (rp ! k) \<le> clock)"
proof (induction n)
  case 0
  then show ?case by simp
next
  case (Suc n)
  then show ?case
    by (auto split: option.splits simp: less_Suc_eq pickStep_def)
qed

lemma pickShortest_None: "pickShortest clock rp = None \<Longrightarrow> p \<in> set rp \<Longrightarrow> clock < ArrivalTime p"
  using pickShortest_scan [of "length rp" rp clock]
  by (auto simp: pickShortest_def in_set_conv_nth)

lemma pickShortest_Some:
  "pickShortest clock rp = Some k \<Longrightarrow> k < length rp \<and> ArrivalTime (rp ! k) \<le> clock"
  using pickShortest_scan [of "length rp" rp clock]
  by (auto simp: pickShortest_def)

lemma firstWithID_nth: "k < length rp \<Longrightarrow> \<exists>i\<le>k. firstWithID (ProcessID (rp ! k)) rp = Some i"
proof (induction rp arbitrary: k)
  case Nil
  then show ?case by simp
next
  case (Cons p rp)
  then show ?case
    by (cases k) (auto, fastforce)
qed

lemma nextArrival_scan:
  "foldl (earlier clock) a rp = a
   \<or> (\<exists>p\<in>set rp. foldl (earlier clock) a rp = ArrivalTime p)"
proof (induction rp arbitrary: a)
  case Nil
  then show ?case by simp
next
  case (Cons q rp)
  show ?case
    using Cons.IH [of "earlier clock a q"]
    by (auto simp: earlier_def split: if_splits)
qed

lemma nextArrivalTime_mem: "rp \<noteq> [] \<Longrightarrow> \<exists>p\<in>set rp. nextArrivalTime clock rp = ArrivalTime p"
  using nextArrival_scan [of clock "ArrivalTime (rp ! 0)" rp]
  unfolding nextArrivalTime_def by (cases rp) auto

lemma nextArrival_lower:
  "foldl (earlier clock) a rp \<le> a
   \<and> (\<forall>p\<in>set rp. clock < ArrivalTime p \<longrightarrow> foldl (earlier clock) a rp \<le> ArrivalTime p)"
proof (induction rp arbitrary: a)
  case Nil
  then show ?case by simp
next
  case (Cons q rp)
  show ?case
    using Cons.IH [of "earlier clock a q"]
    by (auto simp: earlier_def split: if_splits)
qed

lemma pickShortest_after_idle:
  assumes "rp \<noteq> []"
  shows "pickShortest (nextArrivalTime clock rp) rp \<noteq> None"
proof
  assume n: "pickShortest (nextArrivalTime clock rp) rp = None"
  obtain p where p: "p \<in> set rp" "nextArrivalTime clock rp = ArrivalTime p"
    using nextArrivalTime_mem [OF assms] by blast
  from pickShortest_None [OF n p(1)] p(2) show False by simp
qed

lemma SJFPriorityBody_idle:
  assumes "remainingProcesses st \<noteq> []" and "idle st"
  shows "SJFPriorityBody st
           = st\<lparr> currTime := nextArrivalTime (currTime st) (remainingProcesses st) \<rparr>"
    and "\<not> idle (SJFPriorityBody st)"
proof -
  show eq: "SJFPriorityBody st
           = st\<lparr> currTime := nextArrivalTime (currTime st) (remainingProcesses st) \<rparr>"
    using assms(2) by (simp add: SJFPriorityBody_def idle_def)
  show "\<not> idle (SJFPriorityBody st)"
    using pickShortest_after_idle [OF assms(1), of "currTime st"]
    by (simp add: eq idle_def)
qed

lemma SJFPriorityBody_select:
  assumes "\<not> idle st"
  shows "length (remainingProcesses (SJFPriorityBody st))
           = length (remainingProcesses st) - 1"
    and "remainingProcesses st \<noteq> []"
proof -
  from assms obtain k where k: "pickShortest (currTime st) (remainingProcesses st) = Some k"
    by (auto simp: idle_def)
  then have kl: "k < length (remainingProcesses st)"
    using pickShortest_Some by blast
  then obtain i where i: "i \<le> k"
      "firstWithID (ProcessID (remainingProcesses st ! k)) (remainingProcesses st) = Some i"
    using firstWithID_nth by blast
  show "length (remainingProcesses (SJFPriorityBody st)) = length (remainingProcesses st) - 1"
    using k i kl by (simp add: SJFPriorityBody_def Let_def removeInPlace_def length_removeAt)
  show "remainingProcesses st \<noteq> []" using kl by auto
qed

lemma SJFPriorityBody_measure:
  assumes "remainingProcesses st \<noteq> []"
  shows "SJFPriorityMeasure (SJFPriorityBody st) < SJFPriorityMeasure st"
proof (cases "idle st")
  case True
  with SJFPriorityBody_idle [OF assms True] show ?thesis
    by (simp add: SJFPriorityMeasure_def)
next
  case False
  with SJFPriorityBody_select(1) [OF False] assms show ?thesis
    by (cases "remainingProcesses st") (simp_all add: SJFPriorityMeasure_def)
qed

termination SJFPriorityLoop
  by (relation "measure SJFPriorityMeasure") (simp_all add: SJFPriorityBody_measure)

declare SJFPriorityLoop.simps [simp del]

termination SJFPriorityRunFits
  by (relation "measure SJFPriorityMeasure") (simp_all add: SJFPriorityBody_measure)

declare SJFPriorityRunFits.simps [simp del]

section \<open>What one pass of a shortest-job loop does\<close>

text \<open>
  \<open>SJFBody_pass\<close> and \<open>SJFPriorityBody_pass\<close> list the effects of a pass that runs a
  process. The selection, the slice, the two accumulators, the row and the removal are
  the ones the source spells out. The clock is not advanced by the burst of the process
  that ran: the pointer \<open>shortest\<close> is read after the removal, when its slot holds the
  next process of the working slice, or still the process that ran if that was the last.
\<close>

lemma shortestIndex_scan:
  "n \<le> length rp \<Longrightarrow>
   (let s = foldl (\<lambda>s i. if BurstDuration (rp ! i) < BurstDuration (rp ! s) then i else s)
              0 [0..<n]
    in (\<forall>j<n. BurstDuration (rp ! s) \<le> BurstDuration (rp ! j))
       \<and> (\<forall>j<s. BurstDuration (rp ! s) < BurstDuration (rp ! j)))"
proof (induction n)
  case 0
  then show ?case by simp
next
  case (Suc n)
  then show ?case
    by (auto simp: Let_def less_Suc_eq)
qed

lemma shortestIndex_min:
  "j < length rp \<Longrightarrow>
   BurstDuration (rp ! shortestIndex rp) \<le> BurstDuration (rp ! j)"
  "j < shortestIndex rp \<Longrightarrow>
   BurstDuration (rp ! shortestIndex rp) < BurstDuration (rp ! j)"
  using shortestIndex_scan [of "length rp" rp]
  by (simp_all add: shortestIndex_def Let_def)

lemma slot_removeInPlace:
  assumes "i \<le> k" and "k < length s"
  shows "slot (removeInPlace i (s, t)) k = (if Suc k < length s then s ! Suc k else s ! k)"
proof (cases "Suc k < length s")
  case True
  then have "k - i < length s - Suc i" using assms by arith
  then show ?thesis using assms True
    by (simp add: slot_def removeInPlace_def removeAt_def nth_append min_def)
next
  case False
  with assms have k: "k = length s - 1" by simp
  have "s \<noteq> []" using assms by auto
  then have l: "last s = s ! k" using k by (simp add: last_conv_nth)
  have "length (removeAt i s) = k" using assms k by (simp add: removeAt_def)
  then show ?thesis using False l
    by (simp add: slot_def removeInPlace_def nth_append)
qed

lemma SJFBody_pass:
  assumes "remainingProcesses st \<noteq> []"
  defines "rp \<equiv> remainingProcesses st"
  defines "k \<equiv> shortestIndex (remainingProcesses st)"
  defines "p \<equiv> remainingProcesses st ! shortestIndex (remainingProcesses st)"
  defines "clock \<equiv> max (currTime st) (ArrivalTime p)"
  shows "gantt (SJFBody st)
           = gantt st @ [\<lparr>PID = ProcessID p, Start = clock, Stop = clock + BurstDuration p\<rparr>]"
    and "waitTime (SJFBody st) = waitTime st + (clock - ArrivalTime p)"
    and "turn (SJFBody st)
           = turn st + (clock + BurstDuration p - ArrivalTime p - waitTime (SJFBody st))"
    and "schedule (SJFBody st) = schedule st @ [row p clock]"
    and "remainingProcesses (SJFBody st) = removeAt k rp"
    and "currTime (SJFBody st)
           = clock + BurstDuration (if Suc k < length rp then rp ! Suc k else p)"
proof -
  have kl: "k < length rp"
    unfolding k_def rp_def using assms(1) by (rule shortestIndex_less)
  have c: "clock = (if ArrivalTime p > currTime st then ArrivalTime p else currTime st)"
    by (simp add: clock_def max_def)
  show "gantt (SJFBody st)
           = gantt st @ [\<lparr>PID = ProcessID p, Start = clock, Stop = clock + BurstDuration p\<rparr>]"
    by (simp add: SJFBody_def Let_def c p_def)
  show "waitTime (SJFBody st) = waitTime st + (clock - ArrivalTime p)"
    by (simp add: SJFBody_def Let_def c p_def)
  show "turn (SJFBody st)
           = turn st + (clock + BurstDuration p - ArrivalTime p - waitTime (SJFBody st))"
    by (simp add: SJFBody_def Let_def c p_def)
  show "schedule (SJFBody st) = schedule st @ [row p clock]"
    by (simp add: SJFBody_def Let_def c p_def)
  show "remainingProcesses (SJFBody st) = removeAt k rp"
    by (simp add: SJFBody_def Let_def removeInPlace_def k_def rp_def)
  show "currTime (SJFBody st)
           = clock + BurstDuration (if Suc k < length rp then rp ! Suc k else p)"
    using slot_removeInPlace [OF le_refl kl, of "tailSlots st"]
    by (simp add: SJFBody_def Let_def c p_def k_def rp_def)
qed


lemma pickShortest_scan_min:
  "n \<le> length rp \<Longrightarrow>
   (case foldl (pickStep clock rp) None [0..<n] of
      None \<Rightarrow> True
    | Some k \<Rightarrow>
        (\<forall>j<n. ArrivalTime (rp ! j) \<le> clock \<longrightarrow>
           BurstDuration (rp ! k) < BurstDuration (rp ! j)
           \<or> (BurstDuration (rp ! k) = BurstDuration (rp ! j)
               \<and> Priority (rp ! k) \<le> Priority (rp ! j))))"
proof (induction n)
  case 0
  then show ?case by simp
next
  case (Suc n)
  then have n: "n \<le> length rp" by simp
  define r where "r = foldl (pickStep clock rp) None [0..<n]"
  have step: "foldl (pickStep clock rp) None [0..<Suc n] = pickStep clock rp r n"
    by (simp add: r_def)
  from pickShortest_scan [OF n, of clock, folded r_def] Suc.IH [OF n, folded r_def]
  show ?case
    unfolding step by (cases r) (auto simp: pickStep_def less_Suc_eq)
qed

lemma pickShortest_min:
  assumes "pickShortest clock rp = Some k" and "j < length rp" and "ArrivalTime (rp ! j) \<le> clock"
  shows "BurstDuration (rp ! k) < BurstDuration (rp ! j)
         \<or> (BurstDuration (rp ! k) = BurstDuration (rp ! j)
             \<and> Priority (rp ! k) \<le> Priority (rp ! j))"
  using pickShortest_scan_min [of "length rp" rp clock] assms
  by (simp add: pickShortest_def)

lemma SJFPriorityBody_pass:
  assumes "pickShortest (currTime st) (remainingProcesses st) = Some k"
  defines "rp \<equiv> remainingProcesses st"
  defines "p \<equiv> remainingProcesses st ! k"
  defines "clock \<equiv> currTime st"
  shows "gantt (SJFPriorityBody st)
           = gantt st @ [\<lparr>PID = ProcessID p, Start = clock, Stop = clock + BurstDuration p\<rparr>]"
    and "waitTime (SJFPriorityBody st) = waitTime st + (clock - ArrivalTime p)"
    and "turn (SJFPriorityBody st)
           = turn st + (clock + BurstDuration p - ArrivalTime p - waitTime (SJFPriorityBody st))"
    and "schedule (SJFPriorityBody st) = schedule st @ [row p clock]"
    and "\<exists>i\<le>k. firstWithID (ProcessID p) rp = Some i
                \<and> remainingProcesses (SJFPriorityBody st) = removeAt i rp"
    and "currTime (SJFPriorityBody st)
           = clock + BurstDuration (if Suc k < length rp then rp ! Suc k else p)"
proof -
  have kl: "k < length rp"
    unfolding rp_def using pickShortest_Some [OF assms(1)] by simp
  obtain i where i: "i \<le> k" "firstWithID (ProcessID p) rp = Some i"
    unfolding p_def rp_def using firstWithID_nth kl rp_def by blast
  show "gantt (SJFPriorityBody st)
           = gantt st @ [\<lparr>PID = ProcessID p, Start = clock, Stop = clock + BurstDuration p\<rparr>]"
    using assms(1) by (simp add: SJFPriorityBody_def Let_def clock_def p_def)
  show "waitTime (SJFPriorityBody st) = waitTime st + (clock - ArrivalTime p)"
    using assms(1) by (simp add: SJFPriorityBody_def Let_def clock_def p_def)
  show "turn (SJFPriorityBody st)
           = turn st + (clock + BurstDuration p - ArrivalTime p - waitTime (SJFPriorityBody st))"
    using assms(1) by (simp add: SJFPriorityBody_def Let_def clock_def p_def)
  show "schedule (SJFPriorityBody st) = schedule st @ [row p clock]"
    using assms(1) by (simp add: SJFPriorityBody_def Let_def clock_def p_def)
  have "remainingProcesses (SJFPriorityBody st) = removeAt i rp"
    using assms(1) i by (simp add: SJFPriorityBody_def Let_def removeInPlace_def p_def rp_def)
  with i show "\<exists>i\<le>k. firstWithID (ProcessID p) rp = Some i
                \<and> remainingProcesses (SJFPriorityBody st) = removeAt i rp"
    by blast
  show "currTime (SJFPriorityBody st)
           = clock + BurstDuration (if Suc k < length rp then rp ! Suc k else p)"
    using assms(1) i slot_removeInPlace [OF i(1) kl, of "tailSlots st"]
    by (simp add: SJFPriorityBody_def Let_def clock_def p_def rp_def)
qed

section \<open>Invariants of the two shortest-job loops\<close>

lemma SJFLoop_invariant:
  assumes "I st" and "\<And>s. I s \<Longrightarrow> remainingProcesses s \<noteq> [] \<Longrightarrow> I (SJFBody s)"
  shows "I (SJFLoop st) \<and> remainingProcesses (SJFLoop st) = []"
  using assms(1)
proof (induction st rule: SJFLoop.induct)
  case (1 st)
  show ?case
  proof (cases "remainingProcesses st = []")
    case True
    with 1 show ?thesis by (subst (1 2) SJFLoop.simps) simp
  next
    case False
    with 1 assms(2) show ?thesis by (subst (1 2) SJFLoop.simps) simp
  qed
qed

lemma SJFPriorityLoop_invariant:
  assumes "I st" and "\<And>s. I s \<Longrightarrow> remainingProcesses s \<noteq> [] \<Longrightarrow> I (SJFPriorityBody s)"
  shows "I (SJFPriorityLoop st) \<and> remainingProcesses (SJFPriorityLoop st) = []"
  using assms(1)
proof (induction st rule: SJFPriorityLoop.induct)
  case (1 st)
  show ?case
  proof (cases "remainingProcesses st = []")
    case True
    with 1 show ?thesis by (subst (1 2) SJFPriorityLoop.simps) simp
  next
    case False
    with 1 assms(2) show ?thesis by (subst (1 2) SJFPriorityLoop.simps) simp
  qed
qed

lemma SJFBody_shrinks:
  "remainingProcesses st \<noteq> [] \<Longrightarrow>
   length (remainingProcesses (SJFBody st)) = length (remainingProcesses st) - 1"
  by (simp add: SJFBody_def Let_def removeInPlace_def length_removeAt shortestIndex_less)

lemma SJFLoop_passes: "SJFLoop st = (SJFBody ^^ length (remainingProcesses st)) st"
proof (induction st rule: SJFLoop.induct)
  case (1 st)
  show ?case
  proof (cases "remainingProcesses st = []")
    case True
    then show ?thesis by (subst SJFLoop.simps) simp
  next
    case False
    then have "length (remainingProcesses st) = Suc (length (remainingProcesses (SJFBody st)))"
      using SJFBody_shrinks [OF False] by (cases "remainingProcesses st") simp_all
    with 1 False show ?thesis
      by (subst SJFLoop.simps) (simp add: funpow_swap1)
  qed
qed

lemma SJFPriorityLoop_passes:
  "\<exists>k\<le>SJFPriorityMeasure st. SJFPriorityLoop st = (SJFPriorityBody ^^ k) st"
proof (induction st rule: SJFPriorityLoop.induct)
  case (1 st)
  show ?case
  proof (cases "remainingProcesses st = []")
    case True
    then have "SJFPriorityLoop st = (SJFPriorityBody ^^ 0) st"
      by (subst SJFPriorityLoop.simps) simp
    then show ?thesis by blast
  next
    case False
    with 1 obtain k where k: "k \<le> SJFPriorityMeasure (SJFPriorityBody st)"
      "SJFPriorityLoop (SJFPriorityBody st) = (SJFPriorityBody ^^ k) (SJFPriorityBody st)"
      by auto
    have "SJFPriorityLoop st = (SJFPriorityBody ^^ Suc k) st"
      using False k(2) by (subst SJFPriorityLoop.simps) (simp add: funpow_swap1)
    moreover have "Suc k \<le> SJFPriorityMeasure st"
      using k(1) SJFPriorityBody_measure [OF False] by simp
    ultimately show ?thesis by blast
  qed
qed


lemma nextArrivalTime_idle:
  assumes "rp \<noteq> []" and "\<forall>p\<in>set rp. clock < ArrivalTime p"
  shows "nextArrivalTime clock rp = Min (ArrivalTime ` set rp)"
    and "clock < nextArrivalTime clock rp"
proof -
  obtain p where p: "p \<in> set rp" "nextArrivalTime clock rp = ArrivalTime p"
    using nextArrivalTime_mem [OF assms(1)] by blast
  have low: "nextArrivalTime clock rp \<le> ArrivalTime p'" if "p' \<in> set rp" for p'
    using nextArrival_lower [of clock "ArrivalTime (rp ! 0)" rp] assms(2) that
    by (simp add: nextArrivalTime_def)
  show "nextArrivalTime clock rp = Min (ArrivalTime ` set rp)"
    using p low by (intro Min_eqI [symmetric]) auto
  show "clock < nextArrivalTime clock rp"
    using p assms(2) by simp
qed

lemma idle_iff: "idle st \<longleftrightarrow> (\<forall>p\<in>set (remainingProcesses st). currTime st < ArrivalTime p)"
proof
  assume "idle st"
  then show "\<forall>p\<in>set (remainingProcesses st). currTime st < ArrivalTime p"
    using pickShortest_None by (auto simp: idle_def)
next
  assume a: "\<forall>p\<in>set (remainingProcesses st). currTime st < ArrivalTime p"
  show "idle st"
  proof (rule ccontr)
    assume "\<not> idle st"
    then obtain k where "pickShortest (currTime st) (remainingProcesses st) = Some k"
      by (auto simp: idle_def)
    from pickShortest_Some [OF this] a show False
      by (metis not_less nth_mem)
  qed
qed

lemma set_removeAt: "set (removeAt i s) \<subseteq> set s"
  by (auto simp: removeAt_def dest: in_set_takeD in_set_dropD)

lemma SJFLoop_clock:
  assumes "remainingProcesses st \<noteq> []"
  shows "gantt (SJFLoop st) \<noteq> [] \<and> currTime (SJFLoop st) = Stop (last (gantt (SJFLoop st)))"
proof -
  let ?I = "\<lambda>s::SJFState. remainingProcesses s = [] \<longrightarrow> gantt s \<noteq> [] \<and> currTime s = Stop (last (gantt s))"
  have "?I (SJFLoop st) \<and> remainingProcesses (SJFLoop st) = []"
  proof (rule SJFLoop_invariant)
    show "?I st" using assms by simp
  next
    fix s :: SJFState assume ne: "remainingProcesses s \<noteq> []"
    show "?I (SJFBody s)"
    proof
      assume "remainingProcesses (SJFBody s) = []"
      with SJFBody_shrinks [OF ne] have "length (remainingProcesses s) = 1"
        using ne by (cases "remainingProcesses s") simp_all
      then obtain p where p: "remainingProcesses s = [p]"
        by (cases "remainingProcesses s") simp_all
      show "gantt (SJFBody s) \<noteq> [] \<and> currTime (SJFBody s) = Stop (last (gantt (SJFBody s)))"
        by (simp add: SJFBody_def Let_def p shortestIndex_def removeInPlace_def removeAt_def
            slot_def)
    qed
  qed
  then show ?thesis by simp
qed

lemma SJFPriorityLoop_clock:
  assumes "remainingProcesses st \<noteq> []"
  shows "gantt (SJFPriorityLoop st) \<noteq> []
         \<and> currTime (SJFPriorityLoop st) = Stop (last (gantt (SJFPriorityLoop st)))"
proof -
  let ?I = "\<lambda>s::SJFState. remainingProcesses s = [] \<longrightarrow> gantt s \<noteq> [] \<and> currTime s = Stop (last (gantt s))"
  have "?I (SJFPriorityLoop st) \<and> remainingProcesses (SJFPriorityLoop st) = []"
  proof (rule SJFPriorityLoop_invariant)
    show "?I st" using assms by simp
  next
    fix s :: SJFState assume ne: "remainingProcesses s \<noteq> []"
    show "?I (SJFPriorityBody s)"
    proof
      assume e: "remainingProcesses (SJFPriorityBody s) = []"
      have ni: "\<not> idle s"
        using SJFPriorityBody_idle(1) [OF ne] e ne by auto
      with SJFPriorityBody_select(1) [OF ni] e have "length (remainingProcesses s) = 1"
        using ne by (cases "remainingProcesses s") simp_all
      then obtain p where p: "remainingProcesses s = [p]"
        by (cases "remainingProcesses s") simp_all
      from ni obtain k where k: "pickShortest (currTime s) [p] = Some k"
        by (auto simp: idle_def p)
      from pickShortest_Some [OF k] have k0: "k = 0" by simp
      show "gantt (SJFPriorityBody s) \<noteq> []
            \<and> currTime (SJFPriorityBody s) = Stop (last (gantt (SJFPriorityBody s)))"
        using k by (simp add: SJFPriorityBody_def Let_def p k0 removeInPlace_def removeAt_def
            slot_def)
    qed
  qed
  then show ?thesis by simp
qed

lemma SJFLoop_rows:
  assumes "\<forall>r\<in>set (schedule st). tableRow S r" and "set (remainingProcesses st) \<subseteq> S"
  shows "\<forall>r\<in>set (schedule (SJFLoop st)). tableRow S r"
proof -
  let ?I = "\<lambda>s::SJFState. (\<forall>r\<in>set (schedule s). tableRow S r) \<and> set (remainingProcesses s) \<subseteq> S"
  have "?I (SJFLoop st) \<and> remainingProcesses (SJFLoop st) = []"
  proof (rule SJFLoop_invariant)
    show "?I st" using assms by simp
  next
    fix s :: SJFState assume I: "?I s" and ne: "remainingProcesses s \<noteq> []"
    have "remainingProcesses s ! shortestIndex (remainingProcesses s) \<in> S"
      using I shortestIndex_less [OF ne] by (meson nth_mem subsetD)
    then show "?I (SJFBody s)"
      using I set_removeAt [of "shortestIndex (remainingProcesses s)" "remainingProcesses s"]
      by (auto simp: SJFBody_def Let_def removeInPlace_def tableRow_def)
  qed
  then show ?thesis by simp
qed

lemma SJFPriorityLoop_rows:
  assumes "\<forall>r\<in>set (schedule st). tableRow S r" and "set (remainingProcesses st) \<subseteq> S"
  shows "\<forall>r\<in>set (schedule (SJFPriorityLoop st)). tableRow S r"
proof -
  let ?I = "\<lambda>s::SJFState. (\<forall>r\<in>set (schedule s). tableRow S r) \<and> set (remainingProcesses s) \<subseteq> S"
  have "?I (SJFPriorityLoop st) \<and> remainingProcesses (SJFPriorityLoop st) = []"
  proof (rule SJFPriorityLoop_invariant)
    show "?I st" using assms by simp
  next
    fix s :: SJFState assume I: "?I s" and ne: "remainingProcesses s \<noteq> []"
    show "?I (SJFPriorityBody s)"
    proof (cases "pickShortest (currTime s) (remainingProcesses s)")
      case None
      with I show ?thesis by (simp add: SJFPriorityBody_def)
    next
      case (Some k)
      from pickShortest_Some [OF Some] have "remainingProcesses s ! k \<in> S"
        using I by (meson nth_mem subsetD)
      then show ?thesis
        using I Some set_removeAt [of _ "remainingProcesses s"]
        by (auto simp: SJFPriorityBody_def Let_def removeInPlace_def tableRow_def
            split: option.splits)
    qed
  qed
  then show ?thesis by simp
qed

lemma tableRow_burst:
  assumes "tableRow S r" and "r \<noteq> []"
  shows "\<exists>p\<in>S. r ! 0 = ProcessID p \<and> r ! 2 = BurstDuration p"
  using assms by (auto simp: tableRow_def row_def)

section \<open>The loop of RRSchedule\<close>

lemma RRBody_rrWork:
  assumes "1 \<le> q" and "queue st \<noteq> []"
  shows "rrWork (RRBody q st) < rrWork st"
proof -
  obtain p rest where pr: "queue st = p # rest" using assms(2) by (cases "queue st") auto
  show ?thesis using assms(1)
    by (auto simp: rrWork_def RRBody_def Let_def min64_def pr)
qed

lemma RRLoop_returns:
  assumes "1 \<le> q"
  shows "\<exists>st'. RRLoop q st = Some st'"
proof (induction "rrWork st" arbitrary: st rule: less_induct)
  case less
  show ?case
  proof (cases "queue st = []")
    case True
    then show ?thesis by (subst RRLoop.simps) simp
  next
    case False
    from less [OF RRBody_rrWork [OF assms False]]
    obtain st' where "RRLoop q (RRBody q st) = Some st'" by blast
    with False show ?thesis by (subst RRLoop.simps) simp
  qed
qed

lemma RRLoop_invariant:
  assumes run: "RRLoop q st = Some st'"
    and init: "I st"
    and step: "\<And>s. I s \<Longrightarrow> queue s \<noteq> [] \<Longrightarrow> I (RRBody q s)"
  shows "I st' \<and> queue st' = []"
proof -
  have "q = q \<longrightarrow> I st \<longrightarrow> I st' \<and> queue st' = []"
  proof (rule RRLoop.raw_induct
      [where P = "\<lambda>quantum s r. quantum = q \<longrightarrow> I s \<longrightarrow> I r \<and> queue r = []", OF _ run])
    fix loop :: "int \<Rightarrow> RRState \<Rightarrow> RRState option" and quantum s r
    assume IH: "\<And>a b y. loop a b = Some y \<Longrightarrow> a = q \<longrightarrow> I b \<longrightarrow> I y \<and> queue y = []"
      and eq: "(if 0 < length (queue s) then loop quantum (RRBody quantum s) else Some s) = Some r"
    show "quantum = q \<longrightarrow> I s \<longrightarrow> I r \<and> queue r = []"
    proof (cases "queue s = []")
      case True
      with eq show ?thesis by auto
    next
      case False
      with eq have "loop quantum (RRBody quantum s) = Some r" by simp
      from IH [OF this] step False show ?thesis by auto
    qed
  qed
  with init show ?thesis by simp
qed

lemma RRBody_RRSpecStep: "queue st \<noteq> [] \<Longrightarrow> RRSpecStep q st (RRBody q st)"
proof -
  assume "queue st \<noteq> []"
  then obtain p rest where pr: "queue st = p # rest" by (cases "queue st") auto
  define d where "d = min (BurstDuration p) q"
  have m: "min64 (BurstDuration p) q = d"
    by (simp add: d_def min64_def min_def)
  show ?thesis
  proof (cases "0 < BurstDuration p - d")
    case True
    from RRSpecStep.requeue [OF pr d_def True] True show ?thesis
      by (simp add: RRBody_def Let_def pr m)
  next
    case False
    from RRSpecStep.complete [OF pr d_def False refl refl] False show ?thesis
      by (simp add: RRBody_def Let_def pr m priorityPenalty_def)
  qed
qed

lemma RRLoop_refines:
  assumes "RRLoop q st = Some st'"
  shows "(RRSpecStep q)\<^sup>*\<^sup>* st st' \<and> queue st' = []"
  by (rule RRLoop_invariant [OF assms]) (auto intro: rtranclp.rtrancl_into_rtrancl RRBody_RRSpecStep)

lemma RRBody_rows:
  assumes "\<forall>r\<in>set (schedule st). metricsRow r" and "queue st \<noteq> []"
  shows "\<forall>r\<in>set (schedule (RRBody q st)). metricsRow r"
proof -
  obtain p rest where pr: "queue st = p # rest" using assms(2) by (cases "queue st") auto
  show ?thesis using assms(1)
    by (auto simp: RRBody_def Let_def pr min64_def metricsRow_def priorityPenalty_def
        split: if_splits)
qed

lemma RRLoop_rows:
  assumes "RRLoop q st = Some st'" and "\<forall>r\<in>set (schedule st). metricsRow r"
  shows "\<forall>r\<in>set (schedule st'). metricsRow r"
  using RRLoop_invariant [OF assms(1), where I = "\<lambda>s. \<forall>r\<in>set (schedule s). metricsRow r"]
    assms(2) RRBody_rows by blast

lemma RRLoop_clock:
  assumes "RRLoop q st = Some st'" and "queue st \<noteq> []" and "gantt st = []"
  shows "gantt st' \<noteq> [] \<and> elapsed st' = Stop (last (gantt st'))"
proof -
  let ?I = "\<lambda>s::RRState. (gantt s = [] \<longrightarrow> queue s \<noteq> [])
                          \<and> (gantt s \<noteq> [] \<longrightarrow> elapsed s = Stop (last (gantt s)))"
  have "?I st' \<and> queue st' = []"
  proof (rule RRLoop_invariant [OF assms(1)])
    show "?I st" using assms(2,3) by simp
  next
    fix s :: RRState assume ne: "queue s \<noteq> []"
    obtain p rest where pr: "queue s = p # rest" using ne by (cases "queue s") auto
    show "?I (RRBody q s)"
      by (simp add: RRBody_def Let_def pr)
  qed
  then show ?thesis by auto
qed

lemma RRLoop_count:
  assumes "RRLoop q st = Some st'"
  shows "length (filter (\<lambda>r. r \<noteq> []) (schedule st'))
           = length (filter (\<lambda>r. r \<noteq> []) (schedule st)) + length (queue st)"
    and "length (schedule st') = length (schedule st) + length (queue st)"
proof -
  let ?n = "\<lambda>s::RRState. length (filter (\<lambda>r. r \<noteq> []) (schedule s))"
  let ?I = "\<lambda>s::RRState. ?n s + length (queue s) = ?n st + length (queue st)
                           \<and> length (schedule s) + length (queue s) = length (schedule st) + length (queue st)"
  have "?I st' \<and> queue st' = []"
  proof (rule RRLoop_invariant [OF assms(1)])
    show "?I st" by simp
  next
    fix s :: RRState assume I: "?I s" and ne: "queue s \<noteq> []"
    obtain p rest where pr: "queue s = p # rest" using ne by (cases "queue s") auto
    show "?I (RRBody q s)" using I
      by (auto simp: RRBody_def Let_def pr)
  qed
  then show "?n st' = ?n st + length (queue st)"
   and "length (schedule st') = length (schedule st) + length (queue st)" by auto
qed

lemma RRSchedule_returns:
  assumes "1 \<le> q"
  obtains st' where "RRLoop q (RRInit (sortSlice lessArrival ps)) = Some st'"
    and "RRSchedule ps q
           = Some (sortSlice lessArrival ps, RRReport (sortSlice lessArrival ps) st')"
proof -
  from RRLoop_returns [OF assms] obtain st'
    where "RRLoop q (RRInit (sortSlice lessArrival ps)) = Some st'" by blast
  then show ?thesis
    using that by (simp add: RRSchedule_def Let_def)
qed

lemma RRRunFits_returns:
  assumes "RRRunFits q st = Some True"
  shows "\<exists>st'. RRLoop q st = Some st'"
proof -
  have "True \<longrightarrow> (\<exists>st'. RRLoop q st = Some st')"
  proof (rule RRRunFits.raw_induct
      [where P = "\<lambda>quantum s b. b \<longrightarrow> (\<exists>st'. RRLoop quantum s = Some st')", OF _ assms])
    fix check :: "int \<Rightarrow> RRState \<Rightarrow> bool option" and quantum s r
    assume IH: "\<And>a b y. check a b = Some y \<Longrightarrow> y \<longrightarrow> (\<exists>st'. RRLoop a b = Some st')"
      and eq: "(if 0 < length (queue s)
                then if RRFits quantum s then check quantum (RRBody quantum s) else Some False
                else Some True) = Some r"
    show "r \<longrightarrow> (\<exists>st'. RRLoop quantum s = Some st')"
    proof (cases "queue s = []")
      case True
      then show ?thesis by (subst RRLoop.simps) simp
    next
      case False
      show ?thesis
      proof (cases "RRFits quantum s")
        case True
        with False eq have "check quantum (RRBody quantum s) = Some r" by simp
        from IH [OF this] False show ?thesis by (subst RRLoop.simps) simp
      next
        case nofit: False
        with False eq show ?thesis by simp
      qed
    qed
  qed
  then show ?thesis by simp
qed

lemma min64_min: "min64 a b = min a b"
  by (simp add: min64_def min_def)

lemma RRSpecStep_iff: "RRSpecStep q st st' \<longleftrightarrow> queue st \<noteq> [] \<and> st' = RRBody q st"
proof
  assume "RRSpecStep q st st'"
  then show "queue st \<noteq> [] \<and> st' = RRBody q st"
  proof cases
    case (requeue p rest d)
    then show ?thesis
      by (simp add: RRBody_def Let_def min64_min)
  next
    case (complete p rest d turnaround w)
    then show ?thesis
      by (simp add: RRBody_def Let_def min64_min priorityPenalty_def)
  qed
next
  assume "queue st \<noteq> [] \<and> st' = RRBody q st"
  then show "RRSpecStep q st st'" by (simp add: RRBody_RRSpecStep)
qed

lemma RRBody_bursts:
  assumes "1 \<le> q" and "queue st \<noteq> []" and "\<forall>p\<in>set (queue st). 0 < BurstDuration p"
  shows "\<forall>p\<in>set (queue (RRBody q st)). 0 < BurstDuration p"
    and "sum_list (map BurstDuration (queue (RRBody q st)))
           < sum_list (map BurstDuration (queue st))"
proof -
  obtain p rest where pr: "queue st = p # rest" using assms(2) by (cases "queue st") auto
  show "\<forall>p\<in>set (queue (RRBody q st)). 0 < BurstDuration p"
    using assms(1,3) by (auto simp: RRBody_def Let_def pr min64_def)
  show "sum_list (map BurstDuration (queue (RRBody q st)))
           < sum_list (map BurstDuration (queue st))"
    using assms(1,3) by (auto simp: RRBody_def Let_def pr min64_def)
qed

section \<open>FCFSSchedule: the table rows\<close>

lemma FCFSAfter_0: "FCFSAfter ps 0 = FCFSInit ps"
  by (simp add: FCFSAfter_def)

lemma FCFSAfter_Suc: "FCFSAfter ps (Suc k) = FCFSBody ps (FCFSAfter ps k) k"
  by (simp add: FCFSAfter_def)

lemma serviceTime_FCFSAfter:
  "k \<le> length ps \<Longrightarrow> serviceTime (FCFSAfter ps k) = sum_list (map BurstDuration (take k ps))"
proof (induction k)
  case 0
  then show ?case by (simp add: FCFSAfter_0 FCFSInit_def)
next
  case (Suc k)
  then show ?case
    by (simp add: FCFSAfter_Suc FCFSBody_def Let_def take_Suc_conv_app_nth)
qed

lemma length_schedule_FCFSAfter: "length (schedule (FCFSAfter ps k)) = length ps"
  by (induction k) (simp_all add: FCFSAfter_0 FCFSInit_def FCFSAfter_Suc FCFSBody_def Let_def)

text \<open>A pass writes the row of its own index only, so later passes keep the earlier rows.\<close>

lemma schedule_FCFSAfter_keep:
  "i < k \<Longrightarrow> k \<le> j \<Longrightarrow> schedule (FCFSAfter ps j) ! i = schedule (FCFSAfter ps k) ! i"
proof (induction j)
  case 0
  then show ?case by simp
next
  case (Suc j)
  show ?case
  proof (cases "k = Suc j")
    case True
    then show ?thesis by simp
  next
    case False
    with Suc.prems have "k \<le> j" by simp
    with Suc show ?thesis
      by (simp add: FCFSAfter_Suc FCFSBody_def Let_def)
  qed
qed

lemma schedule_FCFSLoop_nth:
  "i < length ps \<Longrightarrow> schedule (FCFSLoop ps) ! i = schedule (FCFSAfter ps (Suc i)) ! i"
  unfolding FCFSLoop_def by (rule schedule_FCFSAfter_keep) simp_all

lemma FCFS_row:
  assumes "i < length ps"
  shows "schedule (FCFSLoop ps) ! i =
           (let p = ps ! i;
                w = (if ArrivalTime p > 0
                     then sum_list (map BurstDuration (take i ps)) - ArrivalTime p
                     else waitingTime (FCFSAfter ps i))
            in [ProcessID p, Priority p, BurstDuration p, ArrivalTime p, w,
                BurstDuration p + w, BurstDuration p + ArrivalTime p + w])"
  using assms
  by (simp add: schedule_FCFSLoop_nth FCFSAfter_Suc FCFSBody_def Let_def
      length_schedule_FCFSAfter serviceTime_FCFSAfter)

lemma length_gantt_FCFSAfter: "length (gantt (FCFSAfter ps k)) = k"
  by (induction k) (simp_all add: FCFSAfter_0 FCFSInit_def FCFSAfter_Suc FCFSBody_def Let_def)

lemma FCFS_lastCompletion:
  assumes "ps \<noteq> []"
  shows "lastCompletion (FCFSLoop ps) = last (schedule (FCFSLoop ps)) ! 6"
    and "last (schedule (FCFSLoop ps)) ! 6
           = BurstDuration (last ps) + ArrivalTime (last ps) + last (schedule (FCFSLoop ps)) ! 4"
proof -
  obtain n where n: "length ps = Suc n" using assms by (cases ps) auto
  have loop: "FCFSLoop ps = FCFSBody ps (FCFSAfter ps n) n"
    by (simp add: FCFSLoop_def n FCFSAfter_Suc)
  have len: "length (schedule (FCFSLoop ps)) = Suc n"
    by (simp add: FCFSLoop_def length_schedule_FCFSAfter n)
  have l: "last (schedule (FCFSLoop ps)) = schedule (FCFSLoop ps) ! n"
    using len by (metis diff_Suc_1 last_conv_nth list.size(3) nat.distinct(1))
  have lp: "last ps = ps ! n"
    using n assms by (simp add: last_conv_nth)
  show "lastCompletion (FCFSLoop ps) = last (schedule (FCFSLoop ps)) ! 6"
    unfolding l unfolding loop
    by (simp add: FCFSBody_def Let_def length_schedule_FCFSAfter n)
  show "last (schedule (FCFSLoop ps)) ! 6
           = BurstDuration (last ps) + ArrivalTime (last ps) + last (schedule (FCFSLoop ps)) ! 4"
    unfolding l lp unfolding loop
    by (simp add: FCFSBody_def Let_def length_schedule_FCFSAfter n)
qed

section \<open>The time each process gets in the Gantt chart\<close>

text \<open>
  In the charts of \<open>SJFSchedule\<close>, \<open>RRSchedule\<close> and, when the ids are distinct,
  \<open>SJFPrioritySchedule\<close>, the slices that bear a pid add up to the bursts of the input
  processes that bear it. \<open>FCFSSchedule\<close> gives a process that arrives after time 0 the
  slice from the service time so far to the service time plus its burst.
\<close>

lemma work_removeAt:
  assumes "k < length rp"
  shows "work pid (removeAt k rp) + (if ProcessID (rp ! k) = pid then BurstDuration (rp ! k) else 0)
           = work pid rp"
proof -
  have "rp = take k rp @ rp ! k # drop (Suc k) rp"
    using assms by (rule id_take_nth_drop)
  then have "work pid rp = work pid (take k rp @ rp ! k # drop (Suc k) rp)" by simp
  then show ?thesis
    by (simp add: work_def removeAt_def)
qed

lemma work_mset: "mset xs = mset ys \<Longrightarrow> work pid xs = work pid ys"
proof -
  assume "mset xs = mset ys"
  then have "mset (map BurstDuration (filter (\<lambda>p. ProcessID p = pid) xs))
           = mset (map BurstDuration (filter (\<lambda>p. ProcessID p = pid) ys))"
    by simp
  then show ?thesis
    unfolding work_def by (metis sum_mset_sum_list)
qed

lemma work_distinct:
  assumes "distinct (map ProcessID ps)" and "p \<in> set ps"
  shows "work (ProcessID p) ps = BurstDuration p"
  using assms
proof (induction ps)
  case Nil
  then show ?case by simp
next
  case (Cons a ps)
  have none: "filter (\<lambda>x. ProcessID x = ProcessID a) ps = []"
    using Cons.prems(1) by (auto simp: filter_empty_conv image_iff)
  show ?case
  proof (cases "p = a")
    case True
    with none show ?thesis by (simp add: work_def)
  next
    case False
    with Cons.prems have "p \<in> set ps" "ProcessID a \<noteq> ProcessID p" by auto
    with Cons show ?thesis by (simp add: work_def)
  qed
qed

lemma sliceTime_append:
  "sliceTime pid (g @ [s]) = sliceTime pid g + (if PID s = pid then Stop s - Start s else 0)"
  by (simp add: sliceTime_def)

lemma SJFLoop_sliceTime:
  "sliceTime pid (gantt (SJFLoop st))
     = sliceTime pid (gantt st) + work pid (remainingProcesses st)"
proof -
  let ?I = "\<lambda>s::SJFState. sliceTime pid (gantt s) + work pid (remainingProcesses s)
                            = sliceTime pid (gantt st) + work pid (remainingProcesses st)"
  have "?I (SJFLoop st) \<and> remainingProcesses (SJFLoop st) = []"
  proof (rule SJFLoop_invariant)
    show "?I st" by simp
  next
    fix s :: SJFState assume I: "?I s" and ne: "remainingProcesses s \<noteq> []"
    from work_removeAt [OF shortestIndex_less [OF ne], of pid] I
    show "?I (SJFBody s)"
      by (simp add: SJFBody_pass(1,5) [OF ne] sliceTime_append split: if_splits)
  qed
  then show ?thesis by (auto simp: work_def)
qed

lemma RRLoop_sliceTime:
  assumes "RRLoop q st = Some st'"
  shows "sliceTime pid (gantt st') = sliceTime pid (gantt st) + work pid (queue st)"
proof -
  let ?I = "\<lambda>s::RRState. sliceTime pid (gantt s) + work pid (queue s)
                           = sliceTime pid (gantt st) + work pid (queue st)"
  have "?I st' \<and> queue st' = []"
  proof (rule RRLoop_invariant [OF assms])
    show "?I st" by simp
  next
    fix s :: RRState assume I: "?I s" and ne: "queue s \<noteq> []"
    obtain p rest where pr: "queue s = p # rest" using ne by (cases "queue s") auto
    show "?I (RRBody q s)" using I
      by (auto simp: RRBody_def Let_def pr sliceTime_append work_def min64_def)
  qed
  then show ?thesis by (auto simp: work_def)
qed

lemma firstWithID_distinct:
  "distinct (map ProcessID rp) \<Longrightarrow> k < length rp \<Longrightarrow>
   firstWithID (ProcessID (rp ! k)) rp = Some k"
proof (induction rp arbitrary: k)
  case Nil
  then show ?case by simp
next
  case (Cons a rp)
  then show ?case
    by (cases k) auto
qed

lemma distinct_removeAt: "distinct (map f s) \<Longrightarrow> distinct (map f (removeAt i s))"
proof (cases "i < length s")
  case True
  assume d: "distinct (map f s)"
  have "s = take i s @ s ! i # drop (Suc i) s"
    using True by (rule id_take_nth_drop)
  then have "distinct (map f (take i s @ s ! i # drop (Suc i) s))"
    using d by simp
  then show ?thesis by (auto simp: removeAt_def)
next
  case False
  assume "distinct (map f s)"
  with False show ?thesis by (simp add: removeAt_def)
qed

lemma SJFPriorityLoop_sliceTime:
  assumes "distinct (map ProcessID (remainingProcesses st))"
  shows "sliceTime pid (gantt (SJFPriorityLoop st))
     = sliceTime pid (gantt st) + work pid (remainingProcesses st)"
proof -
  let ?I = "\<lambda>s::SJFState. distinct (map ProcessID (remainingProcesses s))
             \<and> sliceTime pid (gantt s) + work pid (remainingProcesses s)
                 = sliceTime pid (gantt st) + work pid (remainingProcesses st)"
  have "?I (SJFPriorityLoop st) \<and> remainingProcesses (SJFPriorityLoop st) = []"
  proof (rule SJFPriorityLoop_invariant)
    show "?I st" using assms by simp
  next
    fix s :: SJFState assume I: "?I s" and ne: "remainingProcesses s \<noteq> []"
    show "?I (SJFPriorityBody s)"
    proof (cases "pickShortest (currTime s) (remainingProcesses s)")
      case None
      with I show ?thesis by (simp add: SJFPriorityBody_def)
    next
      case (Some k)
      from pickShortest_Some [OF Some] have kl: "k < length (remainingProcesses s)" by simp
      from SJFPriorityBody_pass(5) [OF Some] firstWithID_distinct [OF _ kl] I
      have rem: "remainingProcesses (SJFPriorityBody s) = removeAt k (remainingProcesses s)"
        by auto
      from work_removeAt [OF kl, of pid] I distinct_removeAt [of ProcessID "remainingProcesses s" k]
      show ?thesis
        by (simp add: rem SJFPriorityBody_pass(1) [OF Some] sliceTime_append split: if_splits)
    qed
  qed
  then show ?thesis by (auto simp: work_def)
qed

lemma SJF_sliceTime: "sliceTime pid (gantt (snd (SJFSchedule ps))) = work pid ps"
  using SJFLoop_sliceTime [of pid "SJFInit (sortSlice lessArrival ps)"]
    work_mset [OF mset_sortSlice, of pid lessArrival ps]
  by (simp add: SJFSchedule_def Let_def SJFReport_def SJFInit_def sliceTime_def)

lemma SJFPriority_sliceTime:
  assumes "distinct (map ProcessID ps)"
  shows "sliceTime pid (gantt (snd (SJFPrioritySchedule ps))) = work pid ps"
proof -
  have "mset (map ProcessID (sortSlice lessArrivalPriorityBurst ps)) = mset (map ProcessID ps)"
    by (simp add: mset_sortSlice)
  with assms have "distinct (map ProcessID (sortSlice lessArrivalPriorityBurst ps))"
    by (metis mset_eq_imp_distinct_iff)
  then have "distinct (map ProcessID
      (remainingProcesses (SJFInit (sortSlice lessArrivalPriorityBurst ps))))"
    by (simp add: SJFInit_def)
  from SJFPriorityLoop_sliceTime [OF this, of pid]
    work_mset [OF mset_sortSlice, of pid lessArrivalPriorityBurst ps]
  show ?thesis
    by (simp add: SJFPrioritySchedule_def Let_def SJFReport_def SJFInit_def sliceTime_def)
qed

lemma RR_sliceTime:
  assumes "RRSchedule ps q = Some (ps', r)"
  shows "sliceTime pid (gantt r) = work pid ps"
proof -
  from assms obtain st' where st': "RRLoop q (RRInit (sortSlice lessArrival ps)) = Some st'"
    and r: "r = RRReport (sortSlice lessArrival ps) st'"
    by (auto simp: RRSchedule_def Let_def)
  from RRLoop_sliceTime [OF st', of pid] work_mset [OF mset_sortSlice, of pid lessArrival ps]
  show ?thesis
    by (simp add: r RRReport_def RRInit_def sliceTime_def)
qed

lemma gantt_FCFSAfter_keep:
  "i < k \<Longrightarrow> k \<le> j \<Longrightarrow> gantt (FCFSAfter ps j) ! i = gantt (FCFSAfter ps k) ! i"
proof (induction j)
  case 0
  then show ?case by simp
next
  case (Suc j)
  show ?case
  proof (cases "k = Suc j")
    case True
    then show ?thesis by simp
  next
    case False
    with Suc.prems have "k \<le> j" by simp
    with Suc show ?thesis
      by (simp add: FCFSAfter_Suc FCFSBody_def Let_def nth_append length_gantt_FCFSAfter)
  qed
qed

lemma FCFS_slice:
  assumes "i < length ps" and "0 < ArrivalTime (ps ! i)"
  shows "gantt (snd (FCFSSchedule ps)) ! i
           = \<lparr>PID = ProcessID (ps ! i),
               Start = sum_list (map BurstDuration (take i ps)),
               Stop = sum_list (map BurstDuration (take i ps)) + BurstDuration (ps ! i)\<rparr>"
proof -
  have "gantt (FCFSLoop ps) ! i = gantt (FCFSAfter ps (Suc i)) ! i"
    unfolding FCFSLoop_def using assms(1) by (intro gantt_FCFSAfter_keep) simp_all
  then show ?thesis using assms
    by (simp add: FCFSSchedule_def Let_def FCFSAfter_Suc FCFSBody_def nth_append
        length_gantt_FCFSAfter serviceTime_FCFSAfter)
qed

lemma slice_time_of_process:
  assumes "distinct (map ProcessID ps)" and "p \<in> set ps"
  shows "sliceTime (ProcessID p) (gantt (snd (SJFSchedule ps))) = BurstDuration p"
    and "sliceTime (ProcessID p) (gantt (snd (SJFPrioritySchedule ps))) = BurstDuration p"
    and "RRSchedule ps q = Some (ps', r) \<Longrightarrow> sliceTime (ProcessID p) (gantt r) = BurstDuration p"
  using assms
  by (simp_all add: SJF_sliceTime SJFPriority_sliceTime RR_sliceTime work_distinct)

section \<open>C1: the wait time of FCFSSchedule\<close>

text \<open>
  C1 as stated fails twice. On the three processes of the example, which all arrive at
  time 0, the guard \<open>ArrivalTime > 0\<close> never lets \<open>waitingTime\<close> be assigned: the
  waits in the table are 0, 0, 0 and their average is 0, not 0, 24, 27 and 17. And the
  wait is not cut off at 0: a single process with burst 3 arriving at time 5 gets the wait
  \<open>0 - 5 = -5\<close>, where \<open>max(0, 0 - 5)\<close> is 0.
\<close>

theorem FCFS_wait_counterexample:
  "schedule (snd (FCFSSchedule
      [\<lparr>ProcessID = 1, ArrivalTime = 0, BurstDuration = 24, Priority = 0\<rparr>,
       \<lparr>ProcessID = 2, ArrivalTime = 0, BurstDuration = 3, Priority = 0\<rparr>,
       \<lparr>ProcessID = 3, ArrivalTime = 0, BurstDuration = 3, Priority = 0\<rparr>]))
     = [[1, 0, 24, 0, 0, 24, 24], [2, 0, 3, 0, 0, 3, 3], [3, 0, 3, 0, 0, 3, 3]]
   \<and> aveWait (snd (FCFSSchedule
      [\<lparr>ProcessID = 1, ArrivalTime = 0, BurstDuration = 24, Priority = 0\<rparr>,
       \<lparr>ProcessID = 2, ArrivalTime = 0, BurstDuration = 3, Priority = 0\<rparr>,
       \<lparr>ProcessID = 3, ArrivalTime = 0, BurstDuration = 3, Priority = 0\<rparr>]))
     = Finite 0
   \<and> schedule (snd (FCFSSchedule
      [\<lparr>ProcessID = 1, ArrivalTime = 5, BurstDuration = 3, Priority = 0\<rparr>]))
     = [[1, 0, 3, 5, - 5, - 2, 3]]"
  by code_simp

text \<open>
  C1, amended: for every process whose arrival time is positive, the wait that
  \<open>FCFSSchedule\<close> puts in the table (column 4) is the running sum of the bursts of all
  processes before it in index order minus its arrival time, with no lower bound at 0;
  and a first process that arrives at time 0 waits 0. This is so as long as the running
  sum, up to the process concerned, and that difference are \<open>int64\<close> values: the program
  computes both in \<open>int64\<close>.
\<close>

theorem FCFS_wait:
  assumes "i < length ps"
    and "list_all (\<lambda>k. int64 (sum_list (map BurstDuration (take k ps)))) [0..<Suc i]"
    and "int64 (sum_list (map BurstDuration (take i ps)) - ArrivalTime (ps ! i))"
  shows "(0 < ArrivalTime (ps ! i) \<longrightarrow>
            schedule (snd (FCFSSchedule ps)) ! i ! 4
              = sum_list (map BurstDuration (take i ps)) - ArrivalTime (ps ! i))
       \<and> (i = 0 \<and> ArrivalTime (ps ! i) \<le> 0 \<longrightarrow>
            schedule (snd (FCFSSchedule ps)) ! i ! 4 = 0)"
  using assms(1)
  by (auto simp: FCFSSchedule_def Let_def FCFS_row FCFSAfter_0 FCFSInit_def)

theorem FCFS_wait_witness:
  "(1::nat) < length [\<lparr>ProcessID = 1, ArrivalTime = 0, BurstDuration = 5, Priority = 0\<rparr>,
      \<lparr>ProcessID = 2, ArrivalTime = 3, BurstDuration = 9, Priority = 0\<rparr>]
   \<and> list_all (\<lambda>k. int64 (sum_list (map BurstDuration (take k
      [\<lparr>ProcessID = 1, ArrivalTime = 0, BurstDuration = 5, Priority = 0\<rparr>,
      \<lparr>ProcessID = 2, ArrivalTime = 3, BurstDuration = 9, Priority = 0\<rparr>])))) [0..<Suc 1]
   \<and> int64 (sum_list (map BurstDuration (take 1
      [\<lparr>ProcessID = 1, ArrivalTime = 0, BurstDuration = 5, Priority = 0\<rparr>,
      \<lparr>ProcessID = 2, ArrivalTime = 3, BurstDuration = 9, Priority = 0\<rparr>]))
     - ArrivalTime ([\<lparr>ProcessID = 1, ArrivalTime = 0, BurstDuration = 5, Priority = 0\<rparr>,
      \<lparr>ProcessID = 2, ArrivalTime = 3, BurstDuration = 9, Priority = 0\<rparr>] ! 1))
   \<and> 0 < ArrivalTime ([\<lparr>ProcessID = 1, ArrivalTime = 0, BurstDuration = 5, Priority = 0\<rparr>,
      \<lparr>ProcessID = 2, ArrivalTime = 3, BurstDuration = 9, Priority = 0\<rparr>] ! 1)
   \<and> schedule (snd (FCFSSchedule
      [\<lparr>ProcessID = 1, ArrivalTime = 0, BurstDuration = 5, Priority = 0\<rparr>,
      \<lparr>ProcessID = 2, ArrivalTime = 3, BurstDuration = 9, Priority = 0\<rparr>])) ! 1 ! 4 = 5 - 3
   \<and> (0::nat) < length [\<lparr>ProcessID = 1, ArrivalTime = 0, BurstDuration = 5, Priority = 0\<rparr>,
      \<lparr>ProcessID = 2, ArrivalTime = 3, BurstDuration = 9, Priority = 0\<rparr>]
   \<and> list_all (\<lambda>k. int64 (sum_list (map BurstDuration (take k
      [\<lparr>ProcessID = 1, ArrivalTime = 0, BurstDuration = 5, Priority = 0\<rparr>,
      \<lparr>ProcessID = 2, ArrivalTime = 3, BurstDuration = 9, Priority = 0\<rparr>])))) [0..<Suc 0]
   \<and> int64 (sum_list (map BurstDuration (take 0
      [\<lparr>ProcessID = 1, ArrivalTime = 0, BurstDuration = 5, Priority = 0\<rparr>,
      \<lparr>ProcessID = 2, ArrivalTime = 3, BurstDuration = 9, Priority = 0\<rparr>]))
     - ArrivalTime ([\<lparr>ProcessID = 1, ArrivalTime = 0, BurstDuration = 5, Priority = 0\<rparr>,
      \<lparr>ProcessID = 2, ArrivalTime = 3, BurstDuration = 9, Priority = 0\<rparr>] ! 0))
   \<and> ArrivalTime ([\<lparr>ProcessID = 1, ArrivalTime = 0, BurstDuration = 5, Priority = 0\<rparr>,
      \<lparr>ProcessID = 2, ArrivalTime = 3, BurstDuration = 9, Priority = 0\<rparr>] ! 0) \<le> 0
   \<and> schedule (snd (FCFSSchedule
      [\<lparr>ProcessID = 1, ArrivalTime = 0, BurstDuration = 5, Priority = 0\<rparr>,
      \<lparr>ProcessID = 2, ArrivalTime = 3, BurstDuration = 9, Priority = 0\<rparr>])) ! 0 ! 4 = 0"
proof -
  have a1: "(1::nat) < length [\<lparr>ProcessID = 1, ArrivalTime = 0, BurstDuration = 5, Priority = 0\<rparr>,
      \<lparr>ProcessID = 2, ArrivalTime = 3, BurstDuration = 9, Priority = 0\<rparr>]"
    by simp
  have a2: "list_all (\<lambda>k. int64 (sum_list (map BurstDuration (take k
      [\<lparr>ProcessID = 1, ArrivalTime = 0, BurstDuration = 5, Priority = 0\<rparr>,
      \<lparr>ProcessID = 2, ArrivalTime = 3, BurstDuration = 9, Priority = 0\<rparr>])))) [0..<Suc 1]"
    by code_simp
  have a3: "int64 (sum_list (map BurstDuration (take 1
      [\<lparr>ProcessID = 1, ArrivalTime = 0, BurstDuration = 5, Priority = 0\<rparr>,
      \<lparr>ProcessID = 2, ArrivalTime = 3, BurstDuration = 9, Priority = 0\<rparr>]))
     - ArrivalTime ([\<lparr>ProcessID = 1, ArrivalTime = 0, BurstDuration = 5, Priority = 0\<rparr>,
      \<lparr>ProcessID = 2, ArrivalTime = 3, BurstDuration = 9, Priority = 0\<rparr>] ! 1))"
    by code_simp
  have a4: "0 < ArrivalTime ([\<lparr>ProcessID = 1, ArrivalTime = 0, BurstDuration = 5, Priority = 0\<rparr>,
      \<lparr>ProcessID = 2, ArrivalTime = 3, BurstDuration = 9, Priority = 0\<rparr>] ! 1)"
    by simp
  have b1: "(0::nat) < length [\<lparr>ProcessID = 1, ArrivalTime = 0, BurstDuration = 5, Priority = 0\<rparr>,
      \<lparr>ProcessID = 2, ArrivalTime = 3, BurstDuration = 9, Priority = 0\<rparr>]"
    by simp
  have b2: "list_all (\<lambda>k. int64 (sum_list (map BurstDuration (take k
      [\<lparr>ProcessID = 1, ArrivalTime = 0, BurstDuration = 5, Priority = 0\<rparr>,
      \<lparr>ProcessID = 2, ArrivalTime = 3, BurstDuration = 9, Priority = 0\<rparr>])))) [0..<Suc 0]"
    by code_simp
  have b3: "int64 (sum_list (map BurstDuration (take 0
      [\<lparr>ProcessID = 1, ArrivalTime = 0, BurstDuration = 5, Priority = 0\<rparr>,
      \<lparr>ProcessID = 2, ArrivalTime = 3, BurstDuration = 9, Priority = 0\<rparr>]))
     - ArrivalTime ([\<lparr>ProcessID = 1, ArrivalTime = 0, BurstDuration = 5, Priority = 0\<rparr>,
      \<lparr>ProcessID = 2, ArrivalTime = 3, BurstDuration = 9, Priority = 0\<rparr>] ! 0))"
    by code_simp
  have b4: "ArrivalTime ([\<lparr>ProcessID = 1, ArrivalTime = 0, BurstDuration = 5, Priority = 0\<rparr>,
      \<lparr>ProcessID = 2, ArrivalTime = 3, BurstDuration = 9, Priority = 0\<rparr>] ! 0) \<le> 0"
    by simp
  from FCFS_wait [OF a1 a2 a3] a4
  have r1: "schedule (snd (FCFSSchedule
      [\<lparr>ProcessID = 1, ArrivalTime = 0, BurstDuration = 5, Priority = 0\<rparr>,
      \<lparr>ProcessID = 2, ArrivalTime = 3, BurstDuration = 9, Priority = 0\<rparr>])) ! 1 ! 4 = 5 - 3"
    by simp
  from FCFS_wait [OF b1 b2 b3] b4
  have r0: "schedule (snd (FCFSSchedule
      [\<lparr>ProcessID = 1, ArrivalTime = 0, BurstDuration = 5, Priority = 0\<rparr>,
      \<lparr>ProcessID = 2, ArrivalTime = 3, BurstDuration = 9, Priority = 0\<rparr>])) ! 0 ! 4 = 0"
    by simp
  from a1 a2 a3 a4 r1 b1 b2 b3 b4 r0 show ?thesis by blast
qed

section \<open>C2: the rows of the schedule table\<close>

text \<open>
  \<open>FCFSSchedule\<close> assigns \<open>schedule[i]\<close>, so its table has one row for each process.
  The other three create \<open>schedule\<close> with \<open>make([][]string, len(processes))\<close> as well,
  but then \<open>append\<close> to it: the table they hand to \<open>outputSchedule\<close> starts with one
  \<open>nil\<close> row for each process and has twice as many rows as there are processes.
\<close>

lemma SJFLoop_table_length:
  "length (schedule (SJFLoop st)) = length (schedule st) + length (remainingProcesses st)"
proof -
  let ?I = "\<lambda>s::SJFState. length (schedule s) + length (remainingProcesses s)
                            = length (schedule st) + length (remainingProcesses st)"
  have "?I (SJFLoop st) \<and> remainingProcesses (SJFLoop st) = []"
  proof (rule SJFLoop_invariant)
    show "?I st" by simp
  next
    fix s :: SJFState assume I: "?I s" and ne: "remainingProcesses s \<noteq> []"
    have "length (schedule (SJFBody s)) = Suc (length (schedule s))"
      by (simp add: SJFBody_def Let_def)
    with I SJFBody_shrinks [OF ne] ne show "?I (SJFBody s)"
      by (cases "remainingProcesses s") simp_all
  qed
  then have "length (schedule (SJFLoop st)) + 0
               = length (schedule st) + length (remainingProcesses st)"
    by (metis list.size(3))
  then show ?thesis by simp
qed

lemma SJFPriorityLoop_table_length:
  "length (schedule (SJFPriorityLoop st)) = length (schedule st) + length (remainingProcesses st)"
proof -
  let ?I = "\<lambda>s::SJFState. length (schedule s) + length (remainingProcesses s)
                            = length (schedule st) + length (remainingProcesses st)"
  have "?I (SJFPriorityLoop st) \<and> remainingProcesses (SJFPriorityLoop st) = []"
  proof (rule SJFPriorityLoop_invariant)
    show "?I st" by simp
  next
    fix s :: SJFState assume I: "?I s" and ne: "remainingProcesses s \<noteq> []"
    show "?I (SJFPriorityBody s)"
    proof (cases "idle s")
      case True
      with I SJFPriorityBody_idle(1) [OF ne True] show ?thesis by simp
    next
      case False
      then have "length (schedule (SJFPriorityBody s)) = Suc (length (schedule s))"
        by (auto simp: SJFPriorityBody_def Let_def idle_def)
      with I SJFPriorityBody_select(1) [OF False] ne show ?thesis
        by (cases "remainingProcesses s") simp_all
    qed
  qed
  then have "length (schedule (SJFPriorityLoop st)) + 0
               = length (schedule st) + length (remainingProcesses st)"
    by (metis list.size(3))
  then show ?thesis by simp
qed

lemma SJF_table_length:
  "length (schedule (snd (SJFSchedule ps))) = 2 * length ps"
  "length (schedule (snd (SJFPrioritySchedule ps))) = 2 * length ps"
  by (simp_all add: SJFSchedule_def SJFPrioritySchedule_def Let_def SJFReport_def
      SJFLoop_table_length SJFPriorityLoop_table_length SJFInit_def length_sortSlice)

lemma RR_table_length:
  assumes "RRSchedule ps q = Some (ps', r)"
  shows "length (schedule r) = 2 * length ps"
proof -
  from assms obtain st' where st': "RRLoop q (RRInit (sortSlice lessArrival ps)) = Some st'"
    and r: "r = RRReport (sortSlice lessArrival ps) st'"
    by (auto simp: RRSchedule_def Let_def)
  from RRLoop_count(2) [OF st'] show ?thesis
    by (simp add: r RRReport_def RRInit_def length_sortSlice)
qed

text \<open>
  C2 on the single process (id 1, burst 5, arrival 0, priority 1): the tables of
  \<open>SJFSchedule\<close>, \<open>SJFPrioritySchedule\<close> and \<open>RRSchedule\<close> (quantum 2) have two
  rows, the first of them \<open>nil\<close>, where the table of \<open>FCFSSchedule\<close> has the one row.
\<close>

theorem table_rows_example:
  "schedule (snd (SJFSchedule [\<lparr>ProcessID = 1, ArrivalTime = 0, BurstDuration = 5, Priority = 1\<rparr>])) = [[], [1, 1, 5, 0, 0, 5, 5]]
   \<and> schedule (snd (SJFPrioritySchedule [\<lparr>ProcessID = 1, ArrivalTime = 0, BurstDuration = 5, Priority = 1\<rparr>])) = [[], [1, 1, 5, 0, 0, 5, 5]]
   \<and> RRSchedule [\<lparr>ProcessID = 1, ArrivalTime = 0, BurstDuration = 5, Priority = 1\<rparr>] 2
     = Some ([\<lparr>ProcessID = 1, ArrivalTime = 0, BurstDuration = 5, Priority = 1\<rparr>],
             \<lparr>gantt = [\<lparr>PID = 1, Start = 0, Stop = 2\<rparr>, \<lparr>PID = 1, Start = 2, Stop = 4\<rparr>,
                       \<lparr>PID = 1, Start = 4, Stop = 5\<rparr>],
              schedule = [[], [1, 1, 0, 0, 5, 5, 5]],
              aveWait = Finite 5, aveTurnaround = Finite 5,
              aveThroughput = Finite (3602879701896397 / 18014398509481984)\<rparr>)
   \<and> schedule (snd (FCFSSchedule [\<lparr>ProcessID = 1, ArrivalTime = 0, BurstDuration = 5, Priority = 1\<rparr>])) = [[1, 1, 5, 0, 0, 5, 5]]"
  by code_simp

section \<open>C3: what the schedulers leave in the caller's slice\<close>

text \<open>
  C3 as stated fails: \<open>SJFSchedule\<close> calls \<open>sort.Slice\<close> on the caller's slice before
  it copies it. Given (id 1, arrival 3) before (id 2, arrival 0), it leaves the two in
  the opposite order in the caller's array.
\<close>

theorem caller_slice_counterexample:
  "fst (SJFSchedule
      [\<lparr>ProcessID = 1, ArrivalTime = 3, BurstDuration = 5, Priority = 0\<rparr>,
       \<lparr>ProcessID = 2, ArrivalTime = 0, BurstDuration = 3, Priority = 0\<rparr>])
     = [\<lparr>ProcessID = 2, ArrivalTime = 0, BurstDuration = 3, Priority = 0\<rparr>,
        \<lparr>ProcessID = 1, ArrivalTime = 3, BurstDuration = 5, Priority = 0\<rparr>]
   \<and> fst (SJFSchedule
      [\<lparr>ProcessID = 1, ArrivalTime = 3, BurstDuration = 5, Priority = 0\<rparr>,
       \<lparr>ProcessID = 2, ArrivalTime = 0, BurstDuration = 3, Priority = 0\<rparr>])
     \<noteq> [\<lparr>ProcessID = 1, ArrivalTime = 3, BurstDuration = 5, Priority = 0\<rparr>,
        \<lparr>ProcessID = 2, ArrivalTime = 0, BurstDuration = 3, Priority = 0\<rparr>]"
  by code_simp

text \<open>
  What each of the four calls of \<open>main\<close> is handed: the first two the slice as loaded,
  the third the slice sorted by arrival, the fourth that slice sorted again by arrival,
  priority and burst.
\<close>

lemma runAll_slices:
  "runAll ps =
     map_option
       (\<lambda>(ps4, rr). (snd (FCFSSchedule ps), snd (SJFSchedule ps),
                     snd (SJFPrioritySchedule (sortSlice lessArrival ps)), rr))
       (RRSchedule (sortSlice lessArrivalPriorityBurst (sortSlice lessArrival ps)) 2)"
  by (simp add: runAll_def FCFSSchedule_def SJFSchedule_def SJFPrioritySchedule_def Let_def)

text \<open>
  C3, amended: \<open>FCFSSchedule\<close> leaves the caller's slice as it was. \<open>SJFSchedule\<close>,
  \<open>SJFPrioritySchedule\<close> and \<open>RRSchedule\<close> (whenever it returns) leave it holding the
  same records, every field unchanged, but reordered: ascending by arrival time, or for
  \<open>SJFPrioritySchedule\<close> by the comparator on arrival, priority and burst. Removal and
  the decrement of the burst happen on the private copy only, so in the sequence of
  \<open>main\<close> every call is handed the original records, in the order the sorts before it
  left.
\<close>

theorem caller_slice_after:
  "fst (FCFSSchedule ps) = ps
   \<and> mset (fst (SJFSchedule ps)) = mset ps
   \<and> sorted (map ArrivalTime (fst (SJFSchedule ps)))
   \<and> mset (fst (SJFPrioritySchedule ps)) = mset ps
   \<and> sorted_wrt (\<lambda>a b. \<not> lessArrivalPriorityBurst b a) (fst (SJFPrioritySchedule ps))
   \<and> (RRSchedule ps q = Some (ps', r) \<longrightarrow>
         mset ps' = mset ps \<and> sorted (map ArrivalTime ps'))
   \<and> mset (fst (SJFPrioritySchedule (fst (SJFSchedule (fst (FCFSSchedule ps)))))) = mset ps"
proof -
  have "RRSchedule ps q = Some (ps', r) \<longrightarrow> ps' = sortSlice lessArrival ps"
    by (auto simp: RRSchedule_def Let_def)
  then show ?thesis
    by (auto simp: FCFSSchedule_def SJFSchedule_def SJFPrioritySchedule_def Let_def
        mset_sortSlice sorted_sortSlice_lessArrival sorted_sortSlice_lessArrivalPriorityBurst)
qed

theorem caller_slice_after_witness:
  "RRSchedule [\<lparr>ProcessID = 1, ArrivalTime = 3, BurstDuration = 5, Priority = 0\<rparr>,
      \<lparr>ProcessID = 2, ArrivalTime = 0, BurstDuration = 3, Priority = 0\<rparr>] 2
     = Some ([\<lparr>ProcessID = 2, ArrivalTime = 0, BurstDuration = 3, Priority = 0\<rparr>,
      \<lparr>ProcessID = 1, ArrivalTime = 3, BurstDuration = 5, Priority = 0\<rparr>],
             \<lparr>gantt = [\<lparr>PID = 2, Start = 0, Stop = 2\<rparr>, \<lparr>PID = 1, Start = 2, Stop = 4\<rparr>,
                       \<lparr>PID = 2, Start = 4, Stop = 5\<rparr>, \<lparr>PID = 1, Start = 5, Stop = 7\<rparr>,
                       \<lparr>PID = 1, Start = 7, Stop = 8\<rparr>],
              schedule = [[], [], [2, 0, 0, 0, 10, 5, 5], [1, 0, 0, 3, 10, 5, 8]],
              aveWait = Finite 10, aveTurnaround = Finite 5, aveThroughput = Finite (1 / 4)\<rparr>)
   \<and> fst (FCFSSchedule [\<lparr>ProcessID = 1, ArrivalTime = 3, BurstDuration = 5, Priority = 0\<rparr>,
      \<lparr>ProcessID = 2, ArrivalTime = 0, BurstDuration = 3, Priority = 0\<rparr>]) = [\<lparr>ProcessID = 1, ArrivalTime = 3, BurstDuration = 5, Priority = 0\<rparr>,
      \<lparr>ProcessID = 2, ArrivalTime = 0, BurstDuration = 3, Priority = 0\<rparr>]
   \<and> mset (fst (SJFSchedule [\<lparr>ProcessID = 1, ArrivalTime = 3, BurstDuration = 5, Priority = 0\<rparr>,
      \<lparr>ProcessID = 2, ArrivalTime = 0, BurstDuration = 3, Priority = 0\<rparr>])) = mset [\<lparr>ProcessID = 1, ArrivalTime = 3, BurstDuration = 5, Priority = 0\<rparr>,
      \<lparr>ProcessID = 2, ArrivalTime = 0, BurstDuration = 3, Priority = 0\<rparr>]
   \<and> sorted (map ArrivalTime (fst (SJFSchedule [\<lparr>ProcessID = 1, ArrivalTime = 3, BurstDuration = 5, Priority = 0\<rparr>,
      \<lparr>ProcessID = 2, ArrivalTime = 0, BurstDuration = 3, Priority = 0\<rparr>])))
   \<and> mset (fst (SJFPrioritySchedule [\<lparr>ProcessID = 1, ArrivalTime = 3, BurstDuration = 5, Priority = 0\<rparr>,
      \<lparr>ProcessID = 2, ArrivalTime = 0, BurstDuration = 3, Priority = 0\<rparr>])) = mset [\<lparr>ProcessID = 1, ArrivalTime = 3, BurstDuration = 5, Priority = 0\<rparr>,
      \<lparr>ProcessID = 2, ArrivalTime = 0, BurstDuration = 3, Priority = 0\<rparr>]
   \<and> sorted_wrt (\<lambda>a b. \<not> lessArrivalPriorityBurst b a) (fst (SJFPrioritySchedule [\<lparr>ProcessID = 1, ArrivalTime = 3, BurstDuration = 5, Priority = 0\<rparr>,
      \<lparr>ProcessID = 2, ArrivalTime = 0, BurstDuration = 3, Priority = 0\<rparr>]))
   \<and> mset [\<lparr>ProcessID = 2, ArrivalTime = 0, BurstDuration = 3, Priority = 0\<rparr>,
      \<lparr>ProcessID = 1, ArrivalTime = 3, BurstDuration = 5, Priority = 0\<rparr>] = mset [\<lparr>ProcessID = 1, ArrivalTime = 3, BurstDuration = 5, Priority = 0\<rparr>,
      \<lparr>ProcessID = 2, ArrivalTime = 0, BurstDuration = 3, Priority = 0\<rparr>]
   \<and> sorted (map ArrivalTime [\<lparr>ProcessID = 2, ArrivalTime = 0, BurstDuration = 3, Priority = 0\<rparr>,
      \<lparr>ProcessID = 1, ArrivalTime = 3, BurstDuration = 5, Priority = 0\<rparr>])"
proof -
  have h: "RRSchedule [\<lparr>ProcessID = 1, ArrivalTime = 3, BurstDuration = 5, Priority = 0\<rparr>,
      \<lparr>ProcessID = 2, ArrivalTime = 0, BurstDuration = 3, Priority = 0\<rparr>] 2
     = Some ([\<lparr>ProcessID = 2, ArrivalTime = 0, BurstDuration = 3, Priority = 0\<rparr>,
      \<lparr>ProcessID = 1, ArrivalTime = 3, BurstDuration = 5, Priority = 0\<rparr>],
             \<lparr>gantt = [\<lparr>PID = 2, Start = 0, Stop = 2\<rparr>, \<lparr>PID = 1, Start = 2, Stop = 4\<rparr>,
                       \<lparr>PID = 2, Start = 4, Stop = 5\<rparr>, \<lparr>PID = 1, Start = 5, Stop = 7\<rparr>,
                       \<lparr>PID = 1, Start = 7, Stop = 8\<rparr>],
              schedule = [[], [], [2, 0, 0, 0, 10, 5, 5], [1, 0, 0, 3, 10, 5, 8]],
              aveWait = Finite 10, aveTurnaround = Finite 5, aveThroughput = Finite (1 / 4)\<rparr>)"
    by code_simp
  from caller_slice_after [of "[\<lparr>ProcessID = 1, ArrivalTime = 3, BurstDuration = 5, Priority = 0\<rparr>,
      \<lparr>ProcessID = 2, ArrivalTime = 0, BurstDuration = 3, Priority = 0\<rparr>]" 2 "[\<lparr>ProcessID = 2, ArrivalTime = 0, BurstDuration = 3, Priority = 0\<rparr>,
      \<lparr>ProcessID = 1, ArrivalTime = 3, BurstDuration = 5, Priority = 0\<rparr>]"] h
  show ?thesis by blast
qed

section \<open>C4: the clock of SJFSchedule\<close>

text \<open>
  C4 on the two processes (id 1, burst 2, arrival 0) and (id 2, burst 5, arrival 0). The
  first pass selects process 1 and emits the slice from 0 to 2, but it leaves the clock at
  5, not at 2: after the removal \<open>shortest\<close> points at process 2, which has moved into
  the slot, and \<open>currTime += shortest.BurstDuration\<close> adds that burst. Process 2 then
  runs from 5 to 10. Lemma \<open>SJFBody_pass\<close> has the general form of the pass.
\<close>

theorem SJF_clock_example:
  "SJFBody (SJFInit
      [\<lparr>ProcessID = 1, ArrivalTime = 0, BurstDuration = 2, Priority = 0\<rparr>,
       \<lparr>ProcessID = 2, ArrivalTime = 0, BurstDuration = 5, Priority = 0\<rparr>])
     = \<lparr>gantt = [\<lparr>PID = 1, Start = 0, Stop = 2\<rparr>],
         schedule = [[], [], [1, 0, 2, 0, 0, 2, 2]], turn = 2, currTime = 5, waitTime = 0,
         remainingProcesses =
           [\<lparr>ProcessID = 2, ArrivalTime = 0, BurstDuration = 5, Priority = 0\<rparr>],
         tailSlots =
           [\<lparr>ProcessID = 2, ArrivalTime = 0, BurstDuration = 5, Priority = 0\<rparr>]\<rparr>
   \<and> gantt (snd (SJFSchedule
      [\<lparr>ProcessID = 1, ArrivalTime = 0, BurstDuration = 2, Priority = 0\<rparr>,
       \<lparr>ProcessID = 2, ArrivalTime = 0, BurstDuration = 5, Priority = 0\<rparr>]))
     = [\<lparr>PID = 1, Start = 0, Stop = 2\<rparr>, \<lparr>PID = 2, Start = 5, Stop = 10\<rparr>]"
  by code_simp

section \<open>C5: the clock of SJFPrioritySchedule\<close>

text \<open>
  C5 on the same two processes: \<open>SJFPrioritySchedule\<close> has the same last statement
  after the same removal in place, and leaves the clock at 5 after running process 1 from
  0 to 2. Lemma \<open>SJFPriorityBody_pass\<close> has the general form of the pass.
\<close>

theorem SJFPriority_clock_example:
  "SJFPriorityBody (SJFInit
      [\<lparr>ProcessID = 1, ArrivalTime = 0, BurstDuration = 2, Priority = 0\<rparr>,
       \<lparr>ProcessID = 2, ArrivalTime = 0, BurstDuration = 5, Priority = 0\<rparr>])
     = \<lparr>gantt = [\<lparr>PID = 1, Start = 0, Stop = 2\<rparr>],
         schedule = [[], [], [1, 0, 2, 0, 0, 2, 2]], turn = 2, currTime = 5, waitTime = 0,
         remainingProcesses =
           [\<lparr>ProcessID = 2, ArrivalTime = 0, BurstDuration = 5, Priority = 0\<rparr>],
         tailSlots =
           [\<lparr>ProcessID = 2, ArrivalTime = 0, BurstDuration = 5, Priority = 0\<rparr>]\<rparr>
   \<and> gantt (snd (SJFPrioritySchedule
      [\<lparr>ProcessID = 1, ArrivalTime = 0, BurstDuration = 2, Priority = 0\<rparr>,
       \<lparr>ProcessID = 2, ArrivalTime = 0, BurstDuration = 5, Priority = 0\<rparr>]))
     = [\<lparr>PID = 1, Start = 0, Stop = 2\<rparr>, \<lparr>PID = 2, Start = 5, Stop = 10\<rparr>]"
  by code_simp

section \<open>C6: the passes of RRSchedule\<close>

text \<open>
  C6: for every input list and every quantum of at least 1, \<open>RRSchedule\<close> does what the
  specification describes, on every run whose numbers the program can hold (\<open>RRFits\<close>
  for a pass, \<open>RRRunFits\<close> for the run). A pass of the source's loop that fits is
  exactly a step of \<open>RRSpecStep\<close>: it takes the head of the queue, runs it for the
  minimum of its remaining burst and the quantum, appends the slice from \<open>elapsed\<close> to
  \<open>elapsed + ran\<close>, advances \<open>elapsed\<close> by as much, and puts the process back at the
  tail if and only if its remaining burst is still positive. When the run fits, the loop
  returns, its final state is reached from the initial one by such steps and has an
  empty queue, and every row it recorded has turnaround = exit - arrival and
  wait = turnaround - (priority - 1) * 5.
\<close>

theorem RR_follows_specification:
  assumes "1 \<le> q"
  shows "(\<forall>st st'. RRFits q st \<longrightarrow>
            (RRSpecStep q st st' \<longleftrightarrow> queue st \<noteq> [] \<and> st' = RRBody q st))
       \<and> (RRRunFits q (RRInit (sortSlice lessArrival ps)) = Some True \<longrightarrow>
            (\<exists>st'. RRLoop q (RRInit (sortSlice lessArrival ps)) = Some st'
              \<and> RRSchedule ps q
                  = Some (sortSlice lessArrival ps, RRReport (sortSlice lessArrival ps) st')
              \<and> (RRSpecStep q)\<^sup>*\<^sup>* (RRInit (sortSlice lessArrival ps)) st'
              \<and> queue st' = []
              \<and> (\<forall>r\<in>set (schedule st').
                    r = [] \<or> (r ! 5 = r ! 6 - r ! 3 \<and> r ! 4 = r ! 5 - (r ! 1 - 1) * 5))))"
proof -
  obtain st' where run: "RRLoop q (RRInit (sortSlice lessArrival ps)) = Some st'"
    and res: "RRSchedule ps q
                = Some (sortSlice lessArrival ps, RRReport (sortSlice lessArrival ps) st')"
    using RRSchedule_returns [OF assms] by blast
  have "\<forall>r\<in>set (schedule (RRInit (sortSlice lessArrival ps))). metricsRow r"
    by (simp add: RRInit_def metricsRow_def)
  from RRLoop_rows [OF run this]
  have rows: "\<forall>r\<in>set (schedule st').
                r = [] \<or> (r ! 5 = r ! 6 - r ! 3 \<and> r ! 4 = r ! 5 - (r ! 1 - 1) * 5)"
    by (auto simp: metricsRow_def)
  from run res RRLoop_refines [OF run] rows show ?thesis
    by (simp add: RRSpecStep_iff)
qed

theorem RR_follows_specification_witness:
  "(1::int) \<le> 2
   \<and> RRFits 2 (RRInit (sortSlice lessArrival [\<lparr>ProcessID = 1, ArrivalTime = 0, BurstDuration = 5, Priority = 1\<rparr>,
       \<lparr>ProcessID = 2, ArrivalTime = 0, BurstDuration = 3, Priority = 2\<rparr>]))
   \<and> RRSpecStep 2 (RRInit (sortSlice lessArrival [\<lparr>ProcessID = 1, ArrivalTime = 0, BurstDuration = 5, Priority = 1\<rparr>,
       \<lparr>ProcessID = 2, ArrivalTime = 0, BurstDuration = 3, Priority = 2\<rparr>]))
       (RRBody 2 (RRInit (sortSlice lessArrival [\<lparr>ProcessID = 1, ArrivalTime = 0, BurstDuration = 5, Priority = 1\<rparr>,
       \<lparr>ProcessID = 2, ArrivalTime = 0, BurstDuration = 3, Priority = 2\<rparr>])))
   \<and> RRRunFits 2 (RRInit (sortSlice lessArrival [\<lparr>ProcessID = 1, ArrivalTime = 0, BurstDuration = 5, Priority = 1\<rparr>,
       \<lparr>ProcessID = 2, ArrivalTime = 0, BurstDuration = 3, Priority = 2\<rparr>])) = Some True
   \<and> (\<exists>st'. RRLoop 2 (RRInit (sortSlice lessArrival [\<lparr>ProcessID = 1, ArrivalTime = 0, BurstDuration = 5, Priority = 1\<rparr>,
       \<lparr>ProcessID = 2, ArrivalTime = 0, BurstDuration = 3, Priority = 2\<rparr>])) = Some st'
          \<and> RRSchedule [\<lparr>ProcessID = 1, ArrivalTime = 0, BurstDuration = 5, Priority = 1\<rparr>,
       \<lparr>ProcessID = 2, ArrivalTime = 0, BurstDuration = 3, Priority = 2\<rparr>] 2
              = Some (sortSlice lessArrival [\<lparr>ProcessID = 1, ArrivalTime = 0, BurstDuration = 5, Priority = 1\<rparr>,
       \<lparr>ProcessID = 2, ArrivalTime = 0, BurstDuration = 3, Priority = 2\<rparr>], RRReport (sortSlice lessArrival [\<lparr>ProcessID = 1, ArrivalTime = 0, BurstDuration = 5, Priority = 1\<rparr>,
       \<lparr>ProcessID = 2, ArrivalTime = 0, BurstDuration = 3, Priority = 2\<rparr>]) st')
          \<and> (RRSpecStep 2)\<^sup>*\<^sup>* (RRInit (sortSlice lessArrival [\<lparr>ProcessID = 1, ArrivalTime = 0, BurstDuration = 5, Priority = 1\<rparr>,
       \<lparr>ProcessID = 2, ArrivalTime = 0, BurstDuration = 3, Priority = 2\<rparr>])) st'
          \<and> queue st' = []
          \<and> (\<forall>r\<in>set (schedule st').
                r = [] \<or> (r ! 5 = r ! 6 - r ! 3 \<and> r ! 4 = r ! 5 - (r ! 1 - 1) * 5)))"
proof -
  have h1: "(1::int) \<le> 2" by simp
  have h2: "RRFits 2 (RRInit (sortSlice lessArrival [\<lparr>ProcessID = 1, ArrivalTime = 0, BurstDuration = 5, Priority = 1\<rparr>,
       \<lparr>ProcessID = 2, ArrivalTime = 0, BurstDuration = 3, Priority = 2\<rparr>]))"
    by code_simp
  have h3: "queue (RRInit (sortSlice lessArrival [\<lparr>ProcessID = 1, ArrivalTime = 0, BurstDuration = 5, Priority = 1\<rparr>,
       \<lparr>ProcessID = 2, ArrivalTime = 0, BurstDuration = 3, Priority = 2\<rparr>])) \<noteq> []"
    by code_simp
  have h4: "RRRunFits 2 (RRInit (sortSlice lessArrival [\<lparr>ProcessID = 1, ArrivalTime = 0, BurstDuration = 5, Priority = 1\<rparr>,
       \<lparr>ProcessID = 2, ArrivalTime = 0, BurstDuration = 3, Priority = 2\<rparr>])) = Some True"
    by code_simp
  note T = RR_follows_specification [OF h1, of "[\<lparr>ProcessID = 1, ArrivalTime = 0, BurstDuration = 5, Priority = 1\<rparr>,
       \<lparr>ProcessID = 2, ArrivalTime = 0, BurstDuration = 3, Priority = 2\<rparr>]"]
  from T h2 h3
  have s: "RRSpecStep 2 (RRInit (sortSlice lessArrival [\<lparr>ProcessID = 1, ArrivalTime = 0, BurstDuration = 5, Priority = 1\<rparr>,
       \<lparr>ProcessID = 2, ArrivalTime = 0, BurstDuration = 3, Priority = 2\<rparr>]))
             (RRBody 2 (RRInit (sortSlice lessArrival [\<lparr>ProcessID = 1, ArrivalTime = 0, BurstDuration = 5, Priority = 1\<rparr>,
       \<lparr>ProcessID = 2, ArrivalTime = 0, BurstDuration = 3, Priority = 2\<rparr>])))"
    by blast
  from h1 h2 s h4 T show ?thesis by blast
qed

section \<open>C7: the time in the Gantt chart of each process\<close>

text \<open>
  C7 on the three processes of burst 24, 3 and 3 that all arrive at 0: \<open>FCFSSchedule\<close>
  starts every slice at \<open>waitingTime + ArrivalTime\<close>, which is 0 here for all three, and
  stops it at the service time. The slices of processes 2 and 3 last 27 and 30, not 3.
  The other three schedulers do give every process its burst (lemma
  \<open>slice_time_of_process\<close>), and so does \<open>FCFSSchedule\<close> for a process that arrives
  after time 0 (lemma \<open>FCFS_slice\<close>).
\<close>

theorem FCFS_slice_example:
  "gantt (snd (FCFSSchedule
      [\<lparr>ProcessID = 1, ArrivalTime = 0, BurstDuration = 24, Priority = 0\<rparr>,
       \<lparr>ProcessID = 2, ArrivalTime = 0, BurstDuration = 3, Priority = 0\<rparr>,
       \<lparr>ProcessID = 3, ArrivalTime = 0, BurstDuration = 3, Priority = 0\<rparr>]))
     = [\<lparr>PID = 1, Start = 0, Stop = 24\<rparr>, \<lparr>PID = 2, Start = 0, Stop = 27\<rparr>,
        \<lparr>PID = 3, Start = 0, Stop = 30\<rparr>]
   \<and> sliceTime 2 (gantt (snd (FCFSSchedule
      [\<lparr>ProcessID = 1, ArrivalTime = 0, BurstDuration = 24, Priority = 0\<rparr>,
       \<lparr>ProcessID = 2, ArrivalTime = 0, BurstDuration = 3, Priority = 0\<rparr>,
       \<lparr>ProcessID = 3, ArrivalTime = 0, BurstDuration = 3, Priority = 0\<rparr>]))) = 27"
  by code_simp

section \<open>C8: the four loops end\<close>

text \<open>
  C8: with a quantum of at least 1 every scheduling loop terminates on every input list.
  \<open>FCFSSchedule\<close> makes one pass for each index. A pass of \<open>SJFSchedule\<close> makes the
  working slice strictly shorter, and the loop is over after as many passes as there are
  processes. A pass of \<open>SJFPrioritySchedule\<close> either selects a process and makes the
  working slice strictly shorter, or, in the idle branch, keeps it and moves the clock
  strictly forward to the earliest arrival among the remaining processes, after which a
  process is eligible; its loop is over after at most two passes for each process and one
  more. A pass of \<open>RRSchedule\<close> on a queue of positive remaining bursts leaves them
  positive and makes their sum strictly smaller, and the loop returns with an empty queue.
  The positive bursts of the data model are needed only for the strict decrease in the
  round-robin queue.
\<close>

theorem scheduling_loops_terminate:
  assumes "1 \<le> q"
  shows "length (gantt (FCFSLoop ps)) = length ps
       \<and> (\<forall>st. remainingProcesses st \<noteq> [] \<longrightarrow>
             length (remainingProcesses (SJFBody st)) < length (remainingProcesses st))
       \<and> SJFLoop (SJFInit (sortSlice lessArrival ps))
           = (SJFBody ^^ length ps) (SJFInit (sortSlice lessArrival ps))
       \<and> remainingProcesses (SJFLoop (SJFInit (sortSlice lessArrival ps))) = []
       \<and> (\<forall>st. remainingProcesses st \<noteq> [] \<and> \<not> idle st \<longrightarrow>
             length (remainingProcesses (SJFPriorityBody st)) < length (remainingProcesses st))
       \<and> (\<forall>st. remainingProcesses st \<noteq> [] \<and> idle st \<longrightarrow>
             remainingProcesses (SJFPriorityBody st) = remainingProcesses st
             \<and> currTime st < currTime (SJFPriorityBody st)
             \<and> currTime (SJFPriorityBody st) = Min (ArrivalTime ` set (remainingProcesses st))
             \<and> \<not> idle (SJFPriorityBody st))
       \<and> (\<exists>k\<le>2 * length ps + 1.
             SJFPriorityLoop (SJFInit (sortSlice lessArrivalPriorityBurst ps))
               = (SJFPriorityBody ^^ k) (SJFInit (sortSlice lessArrivalPriorityBurst ps)))
       \<and> remainingProcesses (SJFPriorityLoop (SJFInit (sortSlice lessArrivalPriorityBurst ps)))
           = []
       \<and> (\<forall>st. queue st \<noteq> [] \<and> (\<forall>p\<in>set (queue st). 0 < BurstDuration p) \<longrightarrow>
             (\<forall>p\<in>set (queue (RRBody q st)). 0 < BurstDuration p)
             \<and> sum_list (map BurstDuration (queue (RRBody q st)))
                 < sum_list (map BurstDuration (queue st)))
       \<and> (\<exists>st'. RRLoop q (RRInit (sortSlice lessArrival ps)) = Some st' \<and> queue st' = []
              \<and> RRSchedule ps q
                  = Some (sortSlice lessArrival ps, RRReport (sortSlice lessArrival ps) st'))"
proof -
  have fcfs: "length (gantt (FCFSLoop ps)) = length ps"
    by (simp add: FCFSLoop_def length_gantt_FCFSAfter)
  have sjf_step: "\<forall>st. remainingProcesses st \<noteq> [] \<longrightarrow>
      length (remainingProcesses (SJFBody st)) < length (remainingProcesses st)"
  proof (intro allI impI)
    fix st :: SJFState assume ne: "remainingProcesses st \<noteq> []"
    with SJFBody_shrinks [OF ne]
    show "length (remainingProcesses (SJFBody st)) < length (remainingProcesses st)"
      by (cases "remainingProcesses st") simp_all
  qed
  have sjf_run: "SJFLoop (SJFInit (sortSlice lessArrival ps))
      = (SJFBody ^^ length ps) (SJFInit (sortSlice lessArrival ps))"
    using SJFLoop_passes [of "SJFInit (sortSlice lessArrival ps)"]
    by (simp add: SJFInit_def length_sortSlice)
  have sjf_end: "remainingProcesses (SJFLoop (SJFInit (sortSlice lessArrival ps))) = []"
    using SJFLoop_invariant [where I = "\<lambda>s. True"] by simp
  have prio_step: "\<forall>st. remainingProcesses st \<noteq> [] \<and> \<not> idle st \<longrightarrow>
      length (remainingProcesses (SJFPriorityBody st)) < length (remainingProcesses st)"
  proof (intro allI impI)
    fix st :: SJFState assume a: "remainingProcesses st \<noteq> [] \<and> \<not> idle st"
    with SJFPriorityBody_select(1) [of st]
    show "length (remainingProcesses (SJFPriorityBody st)) < length (remainingProcesses st)"
      by (cases "remainingProcesses st") simp_all
  qed
  have prio_idle: "\<forall>st. remainingProcesses st \<noteq> [] \<and> idle st \<longrightarrow>
      remainingProcesses (SJFPriorityBody st) = remainingProcesses st
      \<and> currTime st < currTime (SJFPriorityBody st)
      \<and> currTime (SJFPriorityBody st) = Min (ArrivalTime ` set (remainingProcesses st))
      \<and> \<not> idle (SJFPriorityBody st)"
  proof (intro allI impI)
    fix st :: SJFState assume a: "remainingProcesses st \<noteq> [] \<and> idle st"
    then have ne: "remainingProcesses st \<noteq> []" and i: "idle st" by simp_all
    from i have all: "\<forall>p\<in>set (remainingProcesses st). currTime st < ArrivalTime p"
      by (simp add: idle_iff)
    from SJFPriorityBody_idle [OF ne i] nextArrivalTime_idle [OF ne all]
    show "remainingProcesses (SJFPriorityBody st) = remainingProcesses st
      \<and> currTime st < currTime (SJFPriorityBody st)
      \<and> currTime (SJFPriorityBody st) = Min (ArrivalTime ` set (remainingProcesses st))
      \<and> \<not> idle (SJFPriorityBody st)"
      by simp
  qed
  have prio_run: "\<exists>k\<le>2 * length ps + 1.
      SJFPriorityLoop (SJFInit (sortSlice lessArrivalPriorityBurst ps))
        = (SJFPriorityBody ^^ k) (SJFInit (sortSlice lessArrivalPriorityBurst ps))"
  proof -
    obtain k where k: "k \<le> SJFPriorityMeasure (SJFInit (sortSlice lessArrivalPriorityBurst ps))"
      "SJFPriorityLoop (SJFInit (sortSlice lessArrivalPriorityBurst ps))
        = (SJFPriorityBody ^^ k) (SJFInit (sortSlice lessArrivalPriorityBurst ps))"
      using SJFPriorityLoop_passes by blast
    have "SJFPriorityMeasure (SJFInit (sortSlice lessArrivalPriorityBurst ps))
            \<le> 2 * length ps + 1"
      by (simp add: SJFPriorityMeasure_def SJFInit_def length_sortSlice)
    with k show ?thesis by (meson le_trans)
  qed
  have prio_end:
    "remainingProcesses (SJFPriorityLoop (SJFInit (sortSlice lessArrivalPriorityBurst ps))) = []"
    using SJFPriorityLoop_invariant [where I = "\<lambda>s. True"] by simp
  have rr_step: "\<forall>st. queue st \<noteq> [] \<and> (\<forall>p\<in>set (queue st). 0 < BurstDuration p) \<longrightarrow>
      (\<forall>p\<in>set (queue (RRBody q st)). 0 < BurstDuration p)
      \<and> sum_list (map BurstDuration (queue (RRBody q st)))
          < sum_list (map BurstDuration (queue st))"
    using RRBody_bursts [OF assms] by blast
  obtain st' where run: "RRLoop q (RRInit (sortSlice lessArrival ps)) = Some st'"
    and res: "RRSchedule ps q
                = Some (sortSlice lessArrival ps, RRReport (sortSlice lessArrival ps) st')"
    using RRSchedule_returns [OF assms] by blast
  from RRLoop_invariant [OF run, where I = "\<lambda>s. True"] have "queue st' = []" by simp
  with run res have rr_run: "\<exists>st'. RRLoop q (RRInit (sortSlice lessArrival ps)) = Some st'
      \<and> queue st' = []
      \<and> RRSchedule ps q
          = Some (sortSlice lessArrival ps, RRReport (sortSlice lessArrival ps) st')"
    by blast
  from fcfs sjf_step sjf_run sjf_end prio_step prio_idle prio_run prio_end rr_step rr_run
  show ?thesis by (intro conjI)
qed

theorem scheduling_loops_terminate_witness:
  "(1::int) \<le> 2
   \<and> remainingProcesses (SJFInit [\<lparr>ProcessID = 1, ArrivalTime = 0, BurstDuration = 5, Priority = 1\<rparr>,
       \<lparr>ProcessID = 2, ArrivalTime = 0, BurstDuration = 3, Priority = 2\<rparr>]) \<noteq> []
   \<and> length (remainingProcesses (SJFBody (SJFInit [\<lparr>ProcessID = 1, ArrivalTime = 0, BurstDuration = 5, Priority = 1\<rparr>,
       \<lparr>ProcessID = 2, ArrivalTime = 0, BurstDuration = 3, Priority = 2\<rparr>])))
       < length (remainingProcesses (SJFInit [\<lparr>ProcessID = 1, ArrivalTime = 0, BurstDuration = 5, Priority = 1\<rparr>,
       \<lparr>ProcessID = 2, ArrivalTime = 0, BurstDuration = 3, Priority = 2\<rparr>]))
   \<and> SJFLoop (SJFInit (sortSlice lessArrival [\<lparr>ProcessID = 1, ArrivalTime = 0, BurstDuration = 5, Priority = 1\<rparr>,
       \<lparr>ProcessID = 2, ArrivalTime = 0, BurstDuration = 3, Priority = 2\<rparr>]))
       = (SJFBody ^^ length [\<lparr>ProcessID = 1, ArrivalTime = 0, BurstDuration = 5, Priority = 1\<rparr>,
       \<lparr>ProcessID = 2, ArrivalTime = 0, BurstDuration = 3, Priority = 2\<rparr>]) (SJFInit (sortSlice lessArrival [\<lparr>ProcessID = 1, ArrivalTime = 0, BurstDuration = 5, Priority = 1\<rparr>,
       \<lparr>ProcessID = 2, ArrivalTime = 0, BurstDuration = 3, Priority = 2\<rparr>]))
   \<and> \<not> idle (SJFInit [\<lparr>ProcessID = 1, ArrivalTime = 0, BurstDuration = 5, Priority = 1\<rparr>,
       \<lparr>ProcessID = 2, ArrivalTime = 0, BurstDuration = 3, Priority = 2\<rparr>])
   \<and> length (remainingProcesses (SJFPriorityBody (SJFInit [\<lparr>ProcessID = 1, ArrivalTime = 0, BurstDuration = 5, Priority = 1\<rparr>,
       \<lparr>ProcessID = 2, ArrivalTime = 0, BurstDuration = 3, Priority = 2\<rparr>])))
       < length (remainingProcesses (SJFInit [\<lparr>ProcessID = 1, ArrivalTime = 0, BurstDuration = 5, Priority = 1\<rparr>,
       \<lparr>ProcessID = 2, ArrivalTime = 0, BurstDuration = 3, Priority = 2\<rparr>]))
   \<and> remainingProcesses (SJFInit [\<lparr>ProcessID = 3, ArrivalTime = 4, BurstDuration = 1, Priority = 0\<rparr>]) \<noteq> []
   \<and> idle (SJFInit [\<lparr>ProcessID = 3, ArrivalTime = 4, BurstDuration = 1, Priority = 0\<rparr>])
   \<and> currTime (SJFInit [\<lparr>ProcessID = 3, ArrivalTime = 4, BurstDuration = 1, Priority = 0\<rparr>]) < currTime (SJFPriorityBody (SJFInit [\<lparr>ProcessID = 3, ArrivalTime = 4, BurstDuration = 1, Priority = 0\<rparr>]))
   \<and> \<not> idle (SJFPriorityBody (SJFInit [\<lparr>ProcessID = 3, ArrivalTime = 4, BurstDuration = 1, Priority = 0\<rparr>]))
   \<and> queue (RRInit [\<lparr>ProcessID = 1, ArrivalTime = 0, BurstDuration = 5, Priority = 1\<rparr>,
       \<lparr>ProcessID = 2, ArrivalTime = 0, BurstDuration = 3, Priority = 2\<rparr>]) \<noteq> []
   \<and> list_all (\<lambda>p. 0 < BurstDuration p) (queue (RRInit [\<lparr>ProcessID = 1, ArrivalTime = 0, BurstDuration = 5, Priority = 1\<rparr>,
       \<lparr>ProcessID = 2, ArrivalTime = 0, BurstDuration = 3, Priority = 2\<rparr>]))
   \<and> list_all (\<lambda>p. 0 < BurstDuration p) (queue (RRBody 2 (RRInit [\<lparr>ProcessID = 1, ArrivalTime = 0, BurstDuration = 5, Priority = 1\<rparr>,
       \<lparr>ProcessID = 2, ArrivalTime = 0, BurstDuration = 3, Priority = 2\<rparr>])))
   \<and> sum_list (map BurstDuration (queue (RRBody 2 (RRInit [\<lparr>ProcessID = 1, ArrivalTime = 0, BurstDuration = 5, Priority = 1\<rparr>,
       \<lparr>ProcessID = 2, ArrivalTime = 0, BurstDuration = 3, Priority = 2\<rparr>]))))
       < sum_list (map BurstDuration (queue (RRInit [\<lparr>ProcessID = 1, ArrivalTime = 0, BurstDuration = 5, Priority = 1\<rparr>,
       \<lparr>ProcessID = 2, ArrivalTime = 0, BurstDuration = 3, Priority = 2\<rparr>])))
   \<and> (\<exists>st'. RRLoop 2 (RRInit (sortSlice lessArrival [\<lparr>ProcessID = 1, ArrivalTime = 0, BurstDuration = 5, Priority = 1\<rparr>,
       \<lparr>ProcessID = 2, ArrivalTime = 0, BurstDuration = 3, Priority = 2\<rparr>])) = Some st' \<and> queue st' = [])"
proof -
  have h: "(1::int) \<le> 2" by simp
  note T = scheduling_loops_terminate [OF h, of "[\<lparr>ProcessID = 1, ArrivalTime = 0, BurstDuration = 5, Priority = 1\<rparr>,
       \<lparr>ProcessID = 2, ArrivalTime = 0, BurstDuration = 3, Priority = 2\<rparr>]"]
  have a1: "remainingProcesses (SJFInit [\<lparr>ProcessID = 1, ArrivalTime = 0, BurstDuration = 5, Priority = 1\<rparr>,
       \<lparr>ProcessID = 2, ArrivalTime = 0, BurstDuration = 3, Priority = 2\<rparr>]) \<noteq> []"
    by (simp add: SJFInit_def)
  have a2: "\<not> idle (SJFInit [\<lparr>ProcessID = 1, ArrivalTime = 0, BurstDuration = 5, Priority = 1\<rparr>,
       \<lparr>ProcessID = 2, ArrivalTime = 0, BurstDuration = 3, Priority = 2\<rparr>])"
    by code_simp
  have a3: "remainingProcesses (SJFInit [\<lparr>ProcessID = 3, ArrivalTime = 4, BurstDuration = 1, Priority = 0\<rparr>]) \<noteq> []"
    by (simp add: SJFInit_def)
  have a4: "idle (SJFInit [\<lparr>ProcessID = 3, ArrivalTime = 4, BurstDuration = 1, Priority = 0\<rparr>])"
    by code_simp
  have a5: "queue (RRInit [\<lparr>ProcessID = 1, ArrivalTime = 0, BurstDuration = 5, Priority = 1\<rparr>,
       \<lparr>ProcessID = 2, ArrivalTime = 0, BurstDuration = 3, Priority = 2\<rparr>]) \<noteq> []"
    by (simp add: RRInit_def)
  have a6: "\<forall>p\<in>set (queue (RRInit [\<lparr>ProcessID = 1, ArrivalTime = 0, BurstDuration = 5, Priority = 1\<rparr>,
       \<lparr>ProcessID = 2, ArrivalTime = 0, BurstDuration = 3, Priority = 2\<rparr>])). 0 < BurstDuration p"
    by (simp add: RRInit_def)
  show ?thesis
    unfolding list_all_iff using h T a1 a2 a3 a4 a5 a6 by blast
qed

section \<open>C9: the divisor of the throughput\<close>

text \<open>
  C9: for every non-empty input list each policy reports as throughput the number of
  processes divided by its own final clock, in \<open>float64\<close>: the count and the clock are
  converted to \<open>float64\<close> and the quotient is rounded to the nearest \<open>float64\<close>, so that
  it is the quotient of the two up to \<open>2^-53\<close> of its size; when the clock is 0 the
  quotient is \<open>+Inf\<close>. For \<open>FCFSSchedule\<close> the clock is the completion
  time of the last process in index order (burst + arrival + wait, the last cell of the
  last row); for \<open>SJFSchedule\<close> and \<open>SJFPrioritySchedule\<close> the final value of
  \<open>currTime\<close>; for \<open>RRSchedule\<close> the final value of \<open>elapsed\<close>. In the last three cases
  that clock is where the policy's own Gantt chart ends. Each statement is about the
  runs of that policy whose numbers the program can hold.
\<close>

theorem throughput_own_clock:
  assumes "ps \<noteq> []"
  shows "(FCFSRunFits ps \<longrightarrow>
            (\<exists>c. c = last (schedule (snd (FCFSSchedule ps))) ! 6
               \<and> c = BurstDuration (last ps) + ArrivalTime (last ps)
                     + last (schedule (snd (FCFSSchedule ps))) ! 4
               \<and> (c = 0 \<longrightarrow> aveThroughput (snd (FCFSSchedule ps)) = PosInf)
               \<and> (c \<noteq> 0 \<longrightarrow>
                    aveThroughput (snd (FCFSSchedule ps))
                      = Finite (f64quot (f64 (int (length ps))) (f64 c))
                    \<and> \<bar>f64quot (f64 (int (length ps))) (f64 c)
                         - real_of_int (f64 (int (length ps))) / real_of_int (f64 c)\<bar>
                        \<le> \<bar>real_of_int (f64 (int (length ps))) / real_of_int (f64 c)\<bar> / 2 ^ 53)))
       \<and> (SJFRunFits (SJFInit (sortSlice lessArrival ps)) \<longrightarrow>
            (\<exists>c. c = currTime (SJFLoop (SJFInit (sortSlice lessArrival ps)))
               \<and> c = Stop (last (gantt (snd (SJFSchedule ps))))
               \<and> (c = 0 \<longrightarrow> aveThroughput (snd (SJFSchedule ps)) = PosInf)
               \<and> (c \<noteq> 0 \<longrightarrow>
                    aveThroughput (snd (SJFSchedule ps))
                      = Finite (f64quot (f64 (int (length ps))) (f64 c))
                    \<and> \<bar>f64quot (f64 (int (length ps))) (f64 c)
                         - real_of_int (f64 (int (length ps))) / real_of_int (f64 c)\<bar>
                        \<le> \<bar>real_of_int (f64 (int (length ps))) / real_of_int (f64 c)\<bar> / 2 ^ 53)))
       \<and> (SJFPriorityRunFits (SJFInit (sortSlice lessArrivalPriorityBurst ps)) \<longrightarrow>
            (\<exists>c. c = currTime (SJFPriorityLoop (SJFInit (sortSlice lessArrivalPriorityBurst ps)))
               \<and> c = Stop (last (gantt (snd (SJFPrioritySchedule ps))))
               \<and> (c = 0 \<longrightarrow> aveThroughput (snd (SJFPrioritySchedule ps)) = PosInf)
               \<and> (c \<noteq> 0 \<longrightarrow>
                    aveThroughput (snd (SJFPrioritySchedule ps))
                      = Finite (f64quot (f64 (int (length ps))) (f64 c))
                    \<and> \<bar>f64quot (f64 (int (length ps))) (f64 c)
                         - real_of_int (f64 (int (length ps))) / real_of_int (f64 c)\<bar>
                        \<le> \<bar>real_of_int (f64 (int (length ps))) / real_of_int (f64 c)\<bar> / 2 ^ 53)))
       \<and> (RRRunFits q (RRInit (sortSlice lessArrival ps)) = Some True \<longrightarrow>
            (\<exists>st' r c. RRLoop q (RRInit (sortSlice lessArrival ps)) = Some st'
               \<and> RRSchedule ps q = Some (sortSlice lessArrival ps, r)
               \<and> c = elapsed st'
               \<and> c = Stop (last (gantt r))
               \<and> (c = 0 \<longrightarrow> aveThroughput r = PosInf)
               \<and> (c \<noteq> 0 \<longrightarrow>
                    aveThroughput r
                      = Finite (f64quot (f64 (int (length ps))) (f64 c))
                    \<and> \<bar>f64quot (f64 (int (length ps))) (f64 c)
                         - real_of_int (f64 (int (length ps))) / real_of_int (f64 c)\<bar>
                        \<le> \<bar>real_of_int (f64 (int (length ps))) / real_of_int (f64 c)\<bar> / 2 ^ 53)))"
proof -
  let ?n = "int (length ps)"
  from assms have n: "0 < ?n" by simp
  have fcfs: "aveThroughput (snd (FCFSSchedule ps))
           = fdiv ?n (last (schedule (snd (FCFSSchedule ps))) ! 6)"
    using FCFS_lastCompletion(1) [OF assms(1)] by (simp add: FCFSSchedule_def Let_def)
  have fcfs2: "last (schedule (snd (FCFSSchedule ps))) ! 6
           = BurstDuration (last ps) + ArrivalTime (last ps)
             + last (schedule (snd (FCFSSchedule ps))) ! 4"
    using FCFS_lastCompletion(2) [OF assms(1)] by (simp add: FCFSSchedule_def Let_def)
  have ne1: "remainingProcesses (SJFInit (sortSlice lessArrival ps)) \<noteq> []"
    using assms(1) length_sortSlice [of lessArrival ps] by (auto simp: SJFInit_def)
  have ne2: "remainingProcesses (SJFInit (sortSlice lessArrivalPriorityBurst ps)) \<noteq> []"
    using assms(1) length_sortSlice [of lessArrivalPriorityBurst ps] by (auto simp: SJFInit_def)
  have sjf: "aveThroughput (snd (SJFSchedule ps))
           = fdiv ?n (currTime (SJFLoop (SJFInit (sortSlice lessArrival ps))))"
    by (simp add: SJFSchedule_def Let_def SJFReport_def length_sortSlice)
  have sjf2: "currTime (SJFLoop (SJFInit (sortSlice lessArrival ps)))
           = Stop (last (gantt (snd (SJFSchedule ps))))"
    using SJFLoop_clock [OF ne1] by (simp add: SJFSchedule_def Let_def SJFReport_def)
  have prio: "aveThroughput (snd (SJFPrioritySchedule ps))
           = fdiv ?n
               (currTime (SJFPriorityLoop (SJFInit (sortSlice lessArrivalPriorityBurst ps))))"
    by (simp add: SJFPrioritySchedule_def Let_def SJFReport_def length_sortSlice)
  have prio2: "currTime (SJFPriorityLoop (SJFInit (sortSlice lessArrivalPriorityBurst ps)))
           = Stop (last (gantt (snd (SJFPrioritySchedule ps))))"
    using SJFPriorityLoop_clock [OF ne2]
    by (simp add: SJFPrioritySchedule_def Let_def SJFReport_def)
  have rr: "\<exists>st' r. RRLoop q (RRInit (sortSlice lessArrival ps)) = Some st'
              \<and> RRSchedule ps q = Some (sortSlice lessArrival ps, r)
              \<and> aveThroughput r = fdiv ?n (elapsed st')
              \<and> elapsed st' = Stop (last (gantt r))"
    if fits: "RRRunFits q (RRInit (sortSlice lessArrival ps)) = Some True"
  proof -
    from RRRunFits_returns [OF fits]
    obtain st' where run: "RRLoop q (RRInit (sortSlice lessArrival ps)) = Some st'" by blast
    then have res: "RRSchedule ps q
                = Some (sortSlice lessArrival ps, RRReport (sortSlice lessArrival ps) st')"
      by (simp add: RRSchedule_def Let_def)
    have "queue (RRInit (sortSlice lessArrival ps)) \<noteq> []"
      using assms(1) length_sortSlice [of lessArrival ps] by (auto simp: RRInit_def)
    from RRLoop_clock [OF run this] have "elapsed st' = Stop (last (gantt st'))"
      by (simp add: RRInit_def)
    with run res show ?thesis
      by (auto simp: RRReport_def length_sortSlice)
  qed
  have c1: "(\<exists>c. c = last (schedule (snd (FCFSSchedule ps))) ! 6
               \<and> c = BurstDuration (last ps) + ArrivalTime (last ps)
                     + last (schedule (snd (FCFSSchedule ps))) ! 4
               \<and> (c = 0 \<longrightarrow> aveThroughput (snd (FCFSSchedule ps)) = PosInf)
               \<and> (c \<noteq> 0 \<longrightarrow>
                    aveThroughput (snd (FCFSSchedule ps))
                      = Finite (f64quot (f64 ?n) (f64 c))
                    \<and> \<bar>f64quot (f64 ?n) (f64 c)
                         - real_of_int (f64 ?n) / real_of_int (f64 c)\<bar>
                        \<le> \<bar>real_of_int (f64 ?n) / real_of_int (f64 c)\<bar> / 2 ^ 53))"
    using n fcfs fcfs2 fdiv_value [of "last (schedule (snd (FCFSSchedule ps))) ! 6" ?n]
    by simp
  have c2: "(\<exists>c. c = currTime (SJFLoop (SJFInit (sortSlice lessArrival ps)))
               \<and> c = Stop (last (gantt (snd (SJFSchedule ps))))
               \<and> (c = 0 \<longrightarrow> aveThroughput (snd (SJFSchedule ps)) = PosInf)
               \<and> (c \<noteq> 0 \<longrightarrow>
                    aveThroughput (snd (SJFSchedule ps))
                      = Finite (f64quot (f64 ?n) (f64 c))
                    \<and> \<bar>f64quot (f64 ?n) (f64 c)
                         - real_of_int (f64 ?n) / real_of_int (f64 c)\<bar>
                        \<le> \<bar>real_of_int (f64 ?n) / real_of_int (f64 c)\<bar> / 2 ^ 53))"
    using n sjf sjf2 fdiv_value [of "currTime (SJFLoop (SJFInit (sortSlice lessArrival ps)))" ?n]
    by simp
  have c3: "(\<exists>c. c = currTime (SJFPriorityLoop (SJFInit (sortSlice lessArrivalPriorityBurst ps)))
               \<and> c = Stop (last (gantt (snd (SJFPrioritySchedule ps))))
               \<and> (c = 0 \<longrightarrow> aveThroughput (snd (SJFPrioritySchedule ps)) = PosInf)
               \<and> (c \<noteq> 0 \<longrightarrow>
                    aveThroughput (snd (SJFPrioritySchedule ps))
                      = Finite (f64quot (f64 ?n) (f64 c))
                    \<and> \<bar>f64quot (f64 ?n) (f64 c)
                         - real_of_int (f64 ?n) / real_of_int (f64 c)\<bar>
                        \<le> \<bar>real_of_int (f64 ?n) / real_of_int (f64 c)\<bar> / 2 ^ 53))"
    using n prio prio2
      fdiv_value [of "currTime (SJFPriorityLoop (SJFInit (sortSlice lessArrivalPriorityBurst ps)))" ?n]
    by simp
  have c4: "(\<exists>st' r c. RRLoop q (RRInit (sortSlice lessArrival ps)) = Some st'
               \<and> RRSchedule ps q = Some (sortSlice lessArrival ps, r)
               \<and> c = elapsed st'
               \<and> c = Stop (last (gantt r))
               \<and> (c = 0 \<longrightarrow> aveThroughput r = PosInf)
               \<and> (c \<noteq> 0 \<longrightarrow>
                    aveThroughput r
                      = Finite (f64quot (f64 ?n) (f64 c))
                    \<and> \<bar>f64quot (f64 ?n) (f64 c)
                         - real_of_int (f64 ?n) / real_of_int (f64 c)\<bar>
                        \<le> \<bar>real_of_int (f64 ?n) / real_of_int (f64 c)\<bar> / 2 ^ 53))"
    if fits: "RRRunFits q (RRInit (sortSlice lessArrival ps)) = Some True"
  proof -
    from rr [OF fits] obtain st' r
      where run: "RRLoop q (RRInit (sortSlice lessArrival ps)) = Some st'"
        and res: "RRSchedule ps q = Some (sortSlice lessArrival ps, r)"
        and t: "aveThroughput r = fdiv ?n (elapsed st')"
        and e: "elapsed st' = Stop (last (gantt r))"
      by blast
    from n run res t e fdiv_value [of "elapsed st'" ?n]
    show ?thesis
      by (intro exI [of _ st'] exI [of _ r] exI [of _ "elapsed st'"]) simp
  qed
  from c1 c2 c3 c4 show ?thesis by blast
qed

theorem throughput_own_clock_witness:
  "[\<lparr>ProcessID = 1, ArrivalTime = 0, BurstDuration = 5, Priority = 1\<rparr>,
      \<lparr>ProcessID = 2, ArrivalTime = 0, BurstDuration = 3, Priority = 2\<rparr>] \<noteq> []
   \<and> FCFSRunFits [\<lparr>ProcessID = 1, ArrivalTime = 0, BurstDuration = 5, Priority = 1\<rparr>,
      \<lparr>ProcessID = 2, ArrivalTime = 0, BurstDuration = 3, Priority = 2\<rparr>]
   \<and> SJFRunFits (SJFInit (sortSlice lessArrival [\<lparr>ProcessID = 1, ArrivalTime = 0, BurstDuration = 5, Priority = 1\<rparr>,
      \<lparr>ProcessID = 2, ArrivalTime = 0, BurstDuration = 3, Priority = 2\<rparr>]))
   \<and> SJFPriorityRunFits (SJFInit (sortSlice lessArrivalPriorityBurst [\<lparr>ProcessID = 1, ArrivalTime = 0, BurstDuration = 5, Priority = 1\<rparr>,
      \<lparr>ProcessID = 2, ArrivalTime = 0, BurstDuration = 3, Priority = 2\<rparr>]))
   \<and> RRRunFits 2 (RRInit (sortSlice lessArrival [\<lparr>ProcessID = 1, ArrivalTime = 0, BurstDuration = 5, Priority = 1\<rparr>,
      \<lparr>ProcessID = 2, ArrivalTime = 0, BurstDuration = 3, Priority = 2\<rparr>])) = Some True
   \<and> (\<exists>c. c = last (schedule (snd (FCFSSchedule [\<lparr>ProcessID = 1, ArrivalTime = 0, BurstDuration = 5, Priority = 1\<rparr>,
      \<lparr>ProcessID = 2, ArrivalTime = 0, BurstDuration = 3, Priority = 2\<rparr>]))) ! 6
               \<and> c = BurstDuration (last [\<lparr>ProcessID = 1, ArrivalTime = 0, BurstDuration = 5, Priority = 1\<rparr>,
      \<lparr>ProcessID = 2, ArrivalTime = 0, BurstDuration = 3, Priority = 2\<rparr>]) + ArrivalTime (last [\<lparr>ProcessID = 1, ArrivalTime = 0, BurstDuration = 5, Priority = 1\<rparr>,
      \<lparr>ProcessID = 2, ArrivalTime = 0, BurstDuration = 3, Priority = 2\<rparr>])
                     + last (schedule (snd (FCFSSchedule [\<lparr>ProcessID = 1, ArrivalTime = 0, BurstDuration = 5, Priority = 1\<rparr>,
      \<lparr>ProcessID = 2, ArrivalTime = 0, BurstDuration = 3, Priority = 2\<rparr>]))) ! 4
               \<and> (c = 0 \<longrightarrow> aveThroughput (snd (FCFSSchedule [\<lparr>ProcessID = 1, ArrivalTime = 0, BurstDuration = 5, Priority = 1\<rparr>,
      \<lparr>ProcessID = 2, ArrivalTime = 0, BurstDuration = 3, Priority = 2\<rparr>])) = PosInf)
               \<and> (c \<noteq> 0 \<longrightarrow>
                    aveThroughput (snd (FCFSSchedule [\<lparr>ProcessID = 1, ArrivalTime = 0, BurstDuration = 5, Priority = 1\<rparr>,
      \<lparr>ProcessID = 2, ArrivalTime = 0, BurstDuration = 3, Priority = 2\<rparr>]))
                      = Finite (f64quot (f64 (int (length [\<lparr>ProcessID = 1, ArrivalTime = 0, BurstDuration = 5, Priority = 1\<rparr>,
      \<lparr>ProcessID = 2, ArrivalTime = 0, BurstDuration = 3, Priority = 2\<rparr>]))) (f64 c))
                    \<and> \<bar>f64quot (f64 (int (length [\<lparr>ProcessID = 1, ArrivalTime = 0, BurstDuration = 5, Priority = 1\<rparr>,
      \<lparr>ProcessID = 2, ArrivalTime = 0, BurstDuration = 3, Priority = 2\<rparr>]))) (f64 c)
                         - real_of_int (f64 (int (length [\<lparr>ProcessID = 1, ArrivalTime = 0, BurstDuration = 5, Priority = 1\<rparr>,
      \<lparr>ProcessID = 2, ArrivalTime = 0, BurstDuration = 3, Priority = 2\<rparr>]))) / real_of_int (f64 c)\<bar>
                        \<le> \<bar>real_of_int (f64 (int (length [\<lparr>ProcessID = 1, ArrivalTime = 0, BurstDuration = 5, Priority = 1\<rparr>,
      \<lparr>ProcessID = 2, ArrivalTime = 0, BurstDuration = 3, Priority = 2\<rparr>]))) / real_of_int (f64 c)\<bar> / 2 ^ 53))
   \<and> (\<exists>c. c = currTime (SJFLoop (SJFInit (sortSlice lessArrival [\<lparr>ProcessID = 1, ArrivalTime = 0, BurstDuration = 5, Priority = 1\<rparr>,
      \<lparr>ProcessID = 2, ArrivalTime = 0, BurstDuration = 3, Priority = 2\<rparr>])))
               \<and> c = Stop (last (gantt (snd (SJFSchedule [\<lparr>ProcessID = 1, ArrivalTime = 0, BurstDuration = 5, Priority = 1\<rparr>,
      \<lparr>ProcessID = 2, ArrivalTime = 0, BurstDuration = 3, Priority = 2\<rparr>]))))
               \<and> (c = 0 \<longrightarrow> aveThroughput (snd (SJFSchedule [\<lparr>ProcessID = 1, ArrivalTime = 0, BurstDuration = 5, Priority = 1\<rparr>,
      \<lparr>ProcessID = 2, ArrivalTime = 0, BurstDuration = 3, Priority = 2\<rparr>])) = PosInf)
               \<and> (c \<noteq> 0 \<longrightarrow>
                    aveThroughput (snd (SJFSchedule [\<lparr>ProcessID = 1, ArrivalTime = 0, BurstDuration = 5, Priority = 1\<rparr>,
      \<lparr>ProcessID = 2, ArrivalTime = 0, BurstDuration = 3, Priority = 2\<rparr>]))
                      = Finite (f64quot (f64 (int (length [\<lparr>ProcessID = 1, ArrivalTime = 0, BurstDuration = 5, Priority = 1\<rparr>,
      \<lparr>ProcessID = 2, ArrivalTime = 0, BurstDuration = 3, Priority = 2\<rparr>]))) (f64 c))
                    \<and> \<bar>f64quot (f64 (int (length [\<lparr>ProcessID = 1, ArrivalTime = 0, BurstDuration = 5, Priority = 1\<rparr>,
      \<lparr>ProcessID = 2, ArrivalTime = 0, BurstDuration = 3, Priority = 2\<rparr>]))) (f64 c)
                         - real_of_int (f64 (int (length [\<lparr>ProcessID = 1, ArrivalTime = 0, BurstDuration = 5, Priority = 1\<rparr>,
      \<lparr>ProcessID = 2, ArrivalTime = 0, BurstDuration = 3, Priority = 2\<rparr>]))) / real_of_int (f64 c)\<bar>
                        \<le> \<bar>real_of_int (f64 (int (length [\<lparr>ProcessID = 1, ArrivalTime = 0, BurstDuration = 5, Priority = 1\<rparr>,
      \<lparr>ProcessID = 2, ArrivalTime = 0, BurstDuration = 3, Priority = 2\<rparr>]))) / real_of_int (f64 c)\<bar> / 2 ^ 53))
   \<and> (\<exists>c. c = currTime (SJFPriorityLoop (SJFInit (sortSlice lessArrivalPriorityBurst [\<lparr>ProcessID = 1, ArrivalTime = 0, BurstDuration = 5, Priority = 1\<rparr>,
      \<lparr>ProcessID = 2, ArrivalTime = 0, BurstDuration = 3, Priority = 2\<rparr>])))
               \<and> c = Stop (last (gantt (snd (SJFPrioritySchedule [\<lparr>ProcessID = 1, ArrivalTime = 0, BurstDuration = 5, Priority = 1\<rparr>,
      \<lparr>ProcessID = 2, ArrivalTime = 0, BurstDuration = 3, Priority = 2\<rparr>]))))
               \<and> (c = 0 \<longrightarrow> aveThroughput (snd (SJFPrioritySchedule [\<lparr>ProcessID = 1, ArrivalTime = 0, BurstDuration = 5, Priority = 1\<rparr>,
      \<lparr>ProcessID = 2, ArrivalTime = 0, BurstDuration = 3, Priority = 2\<rparr>])) = PosInf)
               \<and> (c \<noteq> 0 \<longrightarrow>
                    aveThroughput (snd (SJFPrioritySchedule [\<lparr>ProcessID = 1, ArrivalTime = 0, BurstDuration = 5, Priority = 1\<rparr>,
      \<lparr>ProcessID = 2, ArrivalTime = 0, BurstDuration = 3, Priority = 2\<rparr>]))
                      = Finite (f64quot (f64 (int (length [\<lparr>ProcessID = 1, ArrivalTime = 0, BurstDuration = 5, Priority = 1\<rparr>,
      \<lparr>ProcessID = 2, ArrivalTime = 0, BurstDuration = 3, Priority = 2\<rparr>]))) (f64 c))
                    \<and> \<bar>f64quot (f64 (int (length [\<lparr>ProcessID = 1, ArrivalTime = 0, BurstDuration = 5, Priority = 1\<rparr>,
      \<lparr>ProcessID = 2, ArrivalTime = 0, BurstDuration = 3, Priority = 2\<rparr>]))) (f64 c)
                         - real_of_int (f64 (int (length [\<lparr>ProcessID = 1, ArrivalTime = 0, BurstDuration = 5, Priority = 1\<rparr>,
      \<lparr>ProcessID = 2, ArrivalTime = 0, BurstDuration = 3, Priority = 2\<rparr>]))) / real_of_int (f64 c)\<bar>
                        \<le> \<bar>real_of_int (f64 (int (length [\<lparr>ProcessID = 1, ArrivalTime = 0, BurstDuration = 5, Priority = 1\<rparr>,
      \<lparr>ProcessID = 2, ArrivalTime = 0, BurstDuration = 3, Priority = 2\<rparr>]))) / real_of_int (f64 c)\<bar> / 2 ^ 53))
   \<and> (\<exists>st' r c. RRLoop 2 (RRInit (sortSlice lessArrival [\<lparr>ProcessID = 1, ArrivalTime = 0, BurstDuration = 5, Priority = 1\<rparr>,
      \<lparr>ProcessID = 2, ArrivalTime = 0, BurstDuration = 3, Priority = 2\<rparr>])) = Some st'
               \<and> RRSchedule [\<lparr>ProcessID = 1, ArrivalTime = 0, BurstDuration = 5, Priority = 1\<rparr>,
      \<lparr>ProcessID = 2, ArrivalTime = 0, BurstDuration = 3, Priority = 2\<rparr>] 2 = Some (sortSlice lessArrival [\<lparr>ProcessID = 1, ArrivalTime = 0, BurstDuration = 5, Priority = 1\<rparr>,
      \<lparr>ProcessID = 2, ArrivalTime = 0, BurstDuration = 3, Priority = 2\<rparr>], r)
               \<and> c = elapsed st'
               \<and> c = Stop (last (gantt r))
               \<and> (c = 0 \<longrightarrow> aveThroughput r = PosInf)
               \<and> (c \<noteq> 0 \<longrightarrow>
                    aveThroughput r
                      = Finite (f64quot (f64 (int (length [\<lparr>ProcessID = 1, ArrivalTime = 0, BurstDuration = 5, Priority = 1\<rparr>,
      \<lparr>ProcessID = 2, ArrivalTime = 0, BurstDuration = 3, Priority = 2\<rparr>]))) (f64 c))
                    \<and> \<bar>f64quot (f64 (int (length [\<lparr>ProcessID = 1, ArrivalTime = 0, BurstDuration = 5, Priority = 1\<rparr>,
      \<lparr>ProcessID = 2, ArrivalTime = 0, BurstDuration = 3, Priority = 2\<rparr>]))) (f64 c)
                         - real_of_int (f64 (int (length [\<lparr>ProcessID = 1, ArrivalTime = 0, BurstDuration = 5, Priority = 1\<rparr>,
      \<lparr>ProcessID = 2, ArrivalTime = 0, BurstDuration = 3, Priority = 2\<rparr>]))) / real_of_int (f64 c)\<bar>
                        \<le> \<bar>real_of_int (f64 (int (length [\<lparr>ProcessID = 1, ArrivalTime = 0, BurstDuration = 5, Priority = 1\<rparr>,
      \<lparr>ProcessID = 2, ArrivalTime = 0, BurstDuration = 3, Priority = 2\<rparr>]))) / real_of_int (f64 c)\<bar> / 2 ^ 53))
   \<and> aveThroughput (snd (FCFSSchedule [\<lparr>ProcessID = 1, ArrivalTime = 0, BurstDuration = 5, Priority = 1\<rparr>,
      \<lparr>ProcessID = 2, ArrivalTime = 0, BurstDuration = 3, Priority = 2\<rparr>]))
       = Finite (6004799503160661 / 9007199254740992)
   \<and> aveThroughput (snd (SJFSchedule [\<lparr>ProcessID = 1, ArrivalTime = 0, BurstDuration = 5, Priority = 1\<rparr>,
      \<lparr>ProcessID = 2, ArrivalTime = 0, BurstDuration = 3, Priority = 2\<rparr>]))
       = Finite (1 / 4)
   \<and> [\<lparr>ProcessID = 1, ArrivalTime = 0, BurstDuration = 0, Priority = 1\<rparr>] \<noteq> []
   \<and> FCFSRunFits [\<lparr>ProcessID = 1, ArrivalTime = 0, BurstDuration = 0, Priority = 1\<rparr>]
   \<and> last (schedule (snd (FCFSSchedule [\<lparr>ProcessID = 1, ArrivalTime = 0, BurstDuration = 0, Priority = 1\<rparr>]))) ! 6 = 0
   \<and> aveThroughput (snd (FCFSSchedule [\<lparr>ProcessID = 1, ArrivalTime = 0, BurstDuration = 0, Priority = 1\<rparr>])) = PosInf"
proof -
  have z1: "[\<lparr>ProcessID = 1, ArrivalTime = 0, BurstDuration = 0, Priority = 1\<rparr>] \<noteq> []" by simp
  have z2: "FCFSRunFits [\<lparr>ProcessID = 1, ArrivalTime = 0, BurstDuration = 0, Priority = 1\<rparr>]"
    by code_simp
  have z3: "last (schedule (snd (FCFSSchedule [\<lparr>ProcessID = 1, ArrivalTime = 0, BurstDuration = 0, Priority = 1\<rparr>]))) ! 6 = 0"
    by code_simp
  from z2 z3 throughput_own_clock [OF z1, of 2]
  have z4: "aveThroughput (snd (FCFSSchedule [\<lparr>ProcessID = 1, ArrivalTime = 0, BurstDuration = 0, Priority = 1\<rparr>])) = PosInf"
    by metis
  have h1: "[\<lparr>ProcessID = 1, ArrivalTime = 0, BurstDuration = 5, Priority = 1\<rparr>,
      \<lparr>ProcessID = 2, ArrivalTime = 0, BurstDuration = 3, Priority = 2\<rparr>] \<noteq> []" by simp
  have h2: "FCFSRunFits [\<lparr>ProcessID = 1, ArrivalTime = 0, BurstDuration = 5, Priority = 1\<rparr>,
      \<lparr>ProcessID = 2, ArrivalTime = 0, BurstDuration = 3, Priority = 2\<rparr>]"
    by code_simp
  have h3: "SJFRunFits (SJFInit (sortSlice lessArrival [\<lparr>ProcessID = 1, ArrivalTime = 0, BurstDuration = 5, Priority = 1\<rparr>,
      \<lparr>ProcessID = 2, ArrivalTime = 0, BurstDuration = 3, Priority = 2\<rparr>]))"
    by code_simp
  have h4: "SJFPriorityRunFits (SJFInit (sortSlice lessArrivalPriorityBurst [\<lparr>ProcessID = 1, ArrivalTime = 0, BurstDuration = 5, Priority = 1\<rparr>,
      \<lparr>ProcessID = 2, ArrivalTime = 0, BurstDuration = 3, Priority = 2\<rparr>]))"
    by code_simp
  have h5: "RRRunFits 2 (RRInit (sortSlice lessArrival [\<lparr>ProcessID = 1, ArrivalTime = 0, BurstDuration = 5, Priority = 1\<rparr>,
      \<lparr>ProcessID = 2, ArrivalTime = 0, BurstDuration = 3, Priority = 2\<rparr>])) = Some True"
    by code_simp
  have v1: "aveThroughput (snd (FCFSSchedule [\<lparr>ProcessID = 1, ArrivalTime = 0, BurstDuration = 5, Priority = 1\<rparr>,
      \<lparr>ProcessID = 2, ArrivalTime = 0, BurstDuration = 3, Priority = 2\<rparr>]))
       = Finite (6004799503160661 / 9007199254740992)"
    by code_simp
  have v2: "aveThroughput (snd (SJFSchedule [\<lparr>ProcessID = 1, ArrivalTime = 0, BurstDuration = 5, Priority = 1\<rparr>,
      \<lparr>ProcessID = 2, ArrivalTime = 0, BurstDuration = 3, Priority = 2\<rparr>]))
       = Finite (1 / 4)"
    by code_simp
  from h1 h2 h3 h4 h5 v1 v2 z1 z2 z3 z4 throughput_own_clock [OF h1, of 2]
  show ?thesis by blast
qed

section \<open>C10: the burst column\<close>

text \<open>
  C10: with a quantum of at least 1, \<open>RRSchedule\<close> returns a table with one full row
  for each process, and every such row has 0 in the burst column (column 2): the burst
  that is left after the last quantum. The rows of \<open>FCFSSchedule\<close>,
  \<open>SJFSchedule\<close> and \<open>SJFPrioritySchedule\<close> carry the burst of the input process
  whose id they carry.
\<close>

theorem burst_column:
  assumes "1 \<le> q"
  shows "(\<exists>ps' r. RRSchedule ps q = Some (ps', r)
            \<and> (\<forall>row\<in>set (schedule r). row \<noteq> [] \<longrightarrow> row ! 2 = 0)
            \<and> length (filter (\<lambda>row. row \<noteq> []) (schedule r)) = length ps)
       \<and> (\<forall>i<length ps. schedule (snd (FCFSSchedule ps)) ! i ! 2 = BurstDuration (ps ! i))
       \<and> (\<forall>row\<in>set (schedule (snd (SJFSchedule ps))). row \<noteq> [] \<longrightarrow>
             (\<exists>p\<in>set ps. row ! 0 = ProcessID p \<and> row ! 2 = BurstDuration p))
       \<and> (\<forall>row\<in>set (schedule (snd (SJFPrioritySchedule ps))). row \<noteq> [] \<longrightarrow>
             (\<exists>p\<in>set ps. row ! 0 = ProcessID p \<and> row ! 2 = BurstDuration p))"
proof -
  obtain st' where run: "RRLoop q (RRInit (sortSlice lessArrival ps)) = Some st'"
    and res: "RRSchedule ps q
                = Some (sortSlice lessArrival ps, RRReport (sortSlice lessArrival ps) st')"
    using RRSchedule_returns [OF assms] by blast
  have "\<forall>r\<in>set (schedule (RRInit (sortSlice lessArrival ps))). metricsRow r"
    by (simp add: RRInit_def metricsRow_def)
  from RRLoop_rows [OF run this]
  have rows: "\<forall>row\<in>set (schedule st'). row \<noteq> [] \<longrightarrow> row ! 2 = 0"
    by (auto simp: metricsRow_def)
  have count: "length (filter (\<lambda>row. row \<noteq> []) (schedule st')) = length ps"
    using RRLoop_count(1) [OF run] by (simp add: RRInit_def length_sortSlice)
  from res rows count
  have rr: "\<exists>ps' r. RRSchedule ps q = Some (ps', r)
            \<and> (\<forall>row\<in>set (schedule r). row \<noteq> [] \<longrightarrow> row ! 2 = 0)
            \<and> length (filter (\<lambda>row. row \<noteq> []) (schedule r)) = length ps"
    by (simp add: RRReport_def)
  have fcfs: "\<forall>i<length ps. schedule (snd (FCFSSchedule ps)) ! i ! 2 = BurstDuration (ps ! i)"
    by (simp add: FCFSSchedule_def Let_def FCFS_row)
  have "\<forall>r\<in>set (schedule (SJFLoop (SJFInit (sortSlice lessArrival ps)))). tableRow (set ps) r"
    by (rule SJFLoop_rows) (simp_all add: SJFInit_def tableRow_def set_sortSlice)
  then have sjf: "\<forall>row\<in>set (schedule (snd (SJFSchedule ps))). row \<noteq> [] \<longrightarrow>
             (\<exists>p\<in>set ps. row ! 0 = ProcessID p \<and> row ! 2 = BurstDuration p)"
    using tableRow_burst by (simp add: SJFSchedule_def Let_def SJFReport_def)
  have "\<forall>r\<in>set (schedule (SJFPriorityLoop (SJFInit (sortSlice lessArrivalPriorityBurst ps)))).
          tableRow (set ps) r"
    by (rule SJFPriorityLoop_rows) (simp_all add: SJFInit_def tableRow_def set_sortSlice)
  then have prio: "\<forall>row\<in>set (schedule (snd (SJFPrioritySchedule ps))). row \<noteq> [] \<longrightarrow>
             (\<exists>p\<in>set ps. row ! 0 = ProcessID p \<and> row ! 2 = BurstDuration p)"
    using tableRow_burst by (simp add: SJFPrioritySchedule_def Let_def SJFReport_def)
  from rr fcfs sjf prio show ?thesis by (intro conjI)
qed

theorem burst_column_witness:
  "(1::int) \<le> 2
   \<and> (\<exists>ps' r. RRSchedule [\<lparr>ProcessID = 1, ArrivalTime = 0, BurstDuration = 5, Priority = 1\<rparr>,
       \<lparr>ProcessID = 2, ArrivalTime = 0, BurstDuration = 3, Priority = 2\<rparr>] 2 = Some (ps', r)
          \<and> (\<forall>row\<in>set (schedule r). row \<noteq> [] \<longrightarrow> row ! 2 = 0)
          \<and> length (filter (\<lambda>row. row \<noteq> []) (schedule r)) = length [\<lparr>ProcessID = 1, ArrivalTime = 0, BurstDuration = 5, Priority = 1\<rparr>,
       \<lparr>ProcessID = 2, ArrivalTime = 0, BurstDuration = 3, Priority = 2\<rparr>])
   \<and> 0 < length [\<lparr>ProcessID = 1, ArrivalTime = 0, BurstDuration = 5, Priority = 1\<rparr>,
       \<lparr>ProcessID = 2, ArrivalTime = 0, BurstDuration = 3, Priority = 2\<rparr>]
   \<and> schedule (snd (FCFSSchedule [\<lparr>ProcessID = 1, ArrivalTime = 0, BurstDuration = 5, Priority = 1\<rparr>,
       \<lparr>ProcessID = 2, ArrivalTime = 0, BurstDuration = 3, Priority = 2\<rparr>])) ! 0 ! 2 = BurstDuration ([\<lparr>ProcessID = 1, ArrivalTime = 0, BurstDuration = 5, Priority = 1\<rparr>,
       \<lparr>ProcessID = 2, ArrivalTime = 0, BurstDuration = 3, Priority = 2\<rparr>] ! 0)
   \<and> [2, 2, 3, 0, 0, 3, 3] \<in> set (schedule (snd (SJFSchedule [\<lparr>ProcessID = 1, ArrivalTime = 0, BurstDuration = 5, Priority = 1\<rparr>,
       \<lparr>ProcessID = 2, ArrivalTime = 0, BurstDuration = 3, Priority = 2\<rparr>])))
   \<and> (\<exists>p\<in>set [\<lparr>ProcessID = 1, ArrivalTime = 0, BurstDuration = 5, Priority = 1\<rparr>,
       \<lparr>ProcessID = 2, ArrivalTime = 0, BurstDuration = 3, Priority = 2\<rparr>]. [2, 2, 3, 0, 0, 3, 3 :: int] ! 0 = ProcessID p
                    \<and> [2, 2, 3, 0, 0, 3, 3] ! 2 = BurstDuration p)
   \<and> [2, 2, 3, 0, 0, 3, 3] \<in> set (schedule (snd (SJFPrioritySchedule [\<lparr>ProcessID = 1, ArrivalTime = 0, BurstDuration = 5, Priority = 1\<rparr>,
       \<lparr>ProcessID = 2, ArrivalTime = 0, BurstDuration = 3, Priority = 2\<rparr>])))"
proof -
  have h: "(1::int) \<le> 2" by simp
  note T = burst_column [OF h, of "[\<lparr>ProcessID = 1, ArrivalTime = 0, BurstDuration = 5, Priority = 1\<rparr>,
       \<lparr>ProcessID = 2, ArrivalTime = 0, BurstDuration = 3, Priority = 2\<rparr>]"]
  have b1: "0 < length [\<lparr>ProcessID = 1, ArrivalTime = 0, BurstDuration = 5, Priority = 1\<rparr>,
       \<lparr>ProcessID = 2, ArrivalTime = 0, BurstDuration = 3, Priority = 2\<rparr>]"
    by simp
  have b2: "[2, 2, 3, 0, 0, 3, 3] \<in> set (schedule (snd (SJFSchedule [\<lparr>ProcessID = 1, ArrivalTime = 0, BurstDuration = 5, Priority = 1\<rparr>,
       \<lparr>ProcessID = 2, ArrivalTime = 0, BurstDuration = 3, Priority = 2\<rparr>])))"
    by code_simp
  have b3: "[2, 2, 3, 0, 0, 3, 3] \<in> set (schedule (snd (SJFPrioritySchedule [\<lparr>ProcessID = 1, ArrivalTime = 0, BurstDuration = 5, Priority = 1\<rparr>,
       \<lparr>ProcessID = 2, ArrivalTime = 0, BurstDuration = 3, Priority = 2\<rparr>])))"
    by code_simp
  have b4: "[2, 2, 3, 0, 0, 3, 3 :: int] \<noteq> []"
    by simp
  show ?thesis
    using h T b1 b2 b3 b4 by blast
qed

end
